theory Spec2Isabelle
  imports Complex_Main "HOL-Library.Log_Nat"
begin

section \<open>The Excel helpers of \<open>data_tools\<close>: workbook loader and sheet profiler\<close>

text \<open>
  The source is \<open>src/utils/.ipynb_checkpoints/data_tools-checkpoint.py\<close>; line numbers
  below are its lines. The module has two functions, \<open>read_all_excel_sheets\<close> and
  \<open>df_overview\<close>. Both are sequences of calls into pandas, tabulate and plotly. Each
  library call the functions make is a definition of its own below, following the
  library's documented behaviour on the values the functions pass; the two functions
  themselves are translated line by line.

  Conventions of the model:
  \<^item> a raised exception is a value \<open>Inl e\<close> of a sum type, a normal return is \<open>Inr v\<close>;
  \<^item> console output and the chart display are a list of events, oldest first;
  \<^item> a float64 number is the rational it denotes, the missing number \<open>nan\<close> is \<open>None\<close>;
    every float64 operation rounds its exact result to the nearest float64 (\<open>fl\<close>);
  \<^item> the random source of \<open>Series.sample\<close> is an explicit list of draws.
\<close>

subsection \<open>Exceptions\<close>

text \<open>
  Every constructor is a subclass of Python's \<open>Exception\<close> and carries the text that
  \<open>str(e)\<close> returns.
\<close>

datatype exn =
    FileNotFoundError string
  | PermissionError string
  | BadZipFile string
  | ValueError string
  | RenderError string

fun str_exn :: "exn \<Rightarrow> string" where
  "str_exn (FileNotFoundError m) = m"
| "str_exn (PermissionError m) = m"
| "str_exn (BadZipFile m) = m"
| "str_exn (ValueError m) = m"
| "str_exn (RenderError m) = m"

subsection \<open>Cells, tables and files\<close>

text \<open>
  A cell value as pandas holds it: the missing marker (\<open>nan\<close>, \<open>None\<close>, \<open>NaT\<close>), a
  Python \<open>str\<close>, a number, a \<open>bool\<close> or a timestamp.
\<close>

datatype cell = NaN | VStr string | VNum rat | VBool bool | VTime int

fun is_str :: "cell \<Rightarrow> bool" where
  "is_str (VStr s) = True"
| "is_str c = False"

text \<open>
  Python compares \<open>True\<close> and \<open>1\<close> (and \<open>False\<close> and \<open>0\<close>) as equal, with equal
  hashes; pandas' hash tables, behind \<open>duplicated\<close> and \<open>nunique\<close>, follow it and count
  all missing markers as one value. \<open>py_key\<close> maps a cell to the representative of its
  equality class.
\<close>

fun py_key :: "cell \<Rightarrow> cell" where
  "py_key (VBool b) = VNum (if b then 1 else 0)"
| "py_key c = c"

datatype dtype = Object | Int64 | Float64 | Boolean | Datetime64

text \<open>
  A \<open>DataFrame\<close> with the default \<open>RangeIndex\<close>: the column labels with their dtypes,
  and the rows, each holding one cell per column.
\<close>

record dataframe =
  columns :: "(string \<times> dtype) list"
  rows :: "cell list list"

text \<open>
  What a path holds when it is opened. The sheets of a workbook are kept in workbook order
  under their names; \<open>'s\<close> is the content of one sheet.
\<close>

datatype 's disk_file =
    No_such_file
  | Not_readable
  | Not_a_workbook
  | Workbook "(string \<times> 's) list"

text \<open>A text between single quotes, as \<open>repr\<close> and the f-strings of the module write it.\<close>

definition quoted :: "string \<Rightarrow> string" where
  "quoted s = CHR 0x27 # s @ [CHR 0x27]"

text \<open>
  Opening a path with \<open>engine='openpyxl'\<close>: the three failures are the ones the
  operating system and the engine raise.
\<close>

definition open_workbook :: "(string \<Rightarrow> 's disk_file) \<Rightarrow> string \<Rightarrow> exn + (string \<times> 's) list" where
  "open_workbook fs file_path =
     (case fs file_path of
        No_such_file \<Rightarrow>
          Inl (FileNotFoundError (''[Errno 2] No such file or directory: '' @ quoted file_path))
      | Not_readable \<Rightarrow>
          Inl (PermissionError (''[Errno 13] Permission denied: '' @ quoted file_path))
      | Not_a_workbook \<Rightarrow> Inl (BadZipFile ''File is not a zip file'')
      | Workbook wb \<Rightarrow> Inr wb)"

subsection \<open>Python dictionaries\<close>

text \<open>
  A \<open>dict\<close> in insertion order. \<open>d[k] = v\<close> replaces the value of a key that is present
  and appends a new key otherwise.
\<close>

fun dict_set :: "('k \<times> 'v) list \<Rightarrow> 'k \<Rightarrow> 'v \<Rightarrow> ('k \<times> 'v) list" where
  "dict_set [] k v = [(k, v)]"
| "dict_set ((k', v') # d) k v = (if k' = k then (k, v) # d else (k', v') # dict_set d k v)"

definition keys :: "('k \<times> 'v) list \<Rightarrow> 'k list" where
  "keys d = map fst d"

subsection \<open>float64\<close>

text \<open>Rounding to the nearest integer, a tie to the even neighbour (\<open>rint\<close>).\<close>

definition round_half_even :: "rat \<Rightarrow> int" where
  "round_half_even x =
     (let f = \<lfloor>x\<rfloor>; d = x - of_int f
      in if d < 1 / 2 then f else if 1 / 2 < d then f + 1 else if even f then f else f + 1)"

text \<open>
  The binary exponent of a positive number \<open>x\<close>: the \<open>e\<close> with \<open>2^e \<le> x < 2^(e+1)\<close>, found
  from the bit lengths of numerator and denominator.
\<close>

definition expo :: "rat \<Rightarrow> int" where
  "expo x =
     (let (p, q) = quotient_of x; d = bitlen p - bitlen q
      in if 2 powi d \<le> x then d else d - 1)"

text \<open>
  The float64 nearest to \<open>x\<close>, a tie to the even mantissa: 53 significant bits, so the
  spacing of the floats around \<open>x\<close> is \<open>2^(e-52)\<close>. The exponent is not bounded: overflow
  and subnormal numbers are left out, none of the numbers the profiler computes with is
  near them.
\<close>

definition fl :: "rat \<Rightarrow> rat" where
  "fl x =
     (if x = 0 then 0
      else let u = 2 powi (expo \<bar>x\<bar> - 52) in of_int (round_half_even (x / u)) * u)"

text \<open>
  \<open>round(n)\<close> of a float Series is numpy's: multiply by \<open>10^n\<close>, \<open>rint\<close>, divide by
  \<open>10^n\<close>, each step in float64.
\<close>

definition np_round :: "nat \<Rightarrow> rat \<Rightarrow> rat" where
  "np_round n x = fl (of_int (round_half_even (fl (x * 10 ^ n))) / 10 ^ n)"

text \<open>
  Rounding the exact value of a float to \<open>n\<close> decimals, a tie to the even digit: the
  decimal that Python's format \<open>.nf\<close> writes.
\<close>

definition round_dec :: "nat \<Rightarrow> rat \<Rightarrow> rat" where
  "round_dec n x = of_int (round_half_even (x * 10 ^ n)) / 10 ^ n"

subsection \<open>The pandas operations \<open>df_overview\<close> calls\<close>

definition shape0 :: "dataframe \<Rightarrow> nat" where
  "shape0 df = length (rows df)"

definition shape1 :: "dataframe \<Rightarrow> nat" where
  "shape1 df = length (columns df)"

text \<open>\<open>df.empty\<close>: one of the two axes has length 0.\<close>

definition df_empty :: "dataframe \<Rightarrow> bool" where
  "df_empty df = (shape0 df = 0 \<or> shape1 df = 0)"

text \<open>
  The columns as \<open>df.items()\<close> yields them: label, dtype and the values of the column,
  top to bottom. read_excel makes the labels unique, so \<open>df[col]\<close> in a loop over
  \<open>df.columns\<close> is the column at the position of \<open>col\<close>.
\<close>

definition df_items :: "dataframe \<Rightarrow> (string \<times> dtype \<times> cell list) list" where
  "df_items df =
     map (\<lambda>j. (fst (columns df ! j), snd (columns df ! j), map (\<lambda>r. r ! j) (rows df)))
       [0..<length (columns df)]"

definition isnull :: "cell list \<Rightarrow> bool list" where
  "isnull vs = map (\<lambda>c. c = NaN) vs"

text \<open>\<open>sum\<close> of a boolean Series: the number of \<open>True\<close>.\<close>

definition sum_bool :: "bool list \<Rightarrow> nat" where
  "sum_bool bs = length (filter (\<lambda>b. b) bs)"

text \<open>
  \<open>mean\<close> of a boolean Series: the sum, a whole number, divided by the length in float64;
  of an empty Series it is \<open>nan\<close>, without an exception.
\<close>

definition mean_bool :: "bool list \<Rightarrow> rat option" where
  "mean_bool bs =
     (if bs = [] then None else Some (fl (of_nat (sum_bool bs) / of_nat (length bs))))"

definition dropna :: "cell list \<Rightarrow> cell list" where
  "dropna vs = filter (\<lambda>c. c \<noteq> NaN) vs"

text \<open>\<open>count\<close>: the number of non-missing values.\<close>

definition count_notnull :: "cell list \<Rightarrow> nat" where
  "count_notnull vs = length (dropna vs)"

text \<open>\<open>nunique\<close>: the number of distinct non-missing values.\<close>

definition nunique :: "cell list \<Rightarrow> nat" where
  "nunique vs = length (remdups (map py_key (dropna vs)))"

text \<open>
  \<open>df.duplicated()\<close> with the default \<open>keep='first'\<close>: a row is flagged when an earlier
  row equals it in every column. On an empty frame pandas returns an empty Series.
\<close>

fun dup_flags :: "cell list list \<Rightarrow> cell list list \<Rightarrow> bool list" where
  "dup_flags seen [] = []"
| "dup_flags seen (r # rs) = (r \<in> set seen) # dup_flags (seen @ [r]) rs"

definition duplicated :: "dataframe \<Rightarrow> bool list" where
  "duplicated df = (if df_empty df then [] else dup_flags [] (map (map py_key) (rows df)))"

text \<open>
  \<open>Series.sample(n)\<close>, without replacement: \<open>n\<close> values at distinct positions, each
  position chosen by the next draw \<open>r\<close> of the random source among the values that are
  left (an exhausted source draws 0). A sample larger than the population raises
  \<open>ValueError\<close>.
\<close>

fun draw :: "nat list \<Rightarrow> nat \<Rightarrow> 'a list \<Rightarrow> 'a list \<times> nat list" where
  "draw g 0 xs = ([], g)"
| "draw g (Suc n) [] = ([], g)"
| "draw g (Suc n) (x # xs) =
     (let i = (case g of [] \<Rightarrow> 0 | r # _ \<Rightarrow> r mod Suc (length xs));
          (ys, g') = draw (tl g) n (take i (x # xs) @ drop (Suc i) (x # xs))
      in ((x # xs) ! i # ys, g'))"

definition sample :: "nat list \<Rightarrow> nat \<Rightarrow> cell list \<Rightarrow> exn + (cell list \<times> nat list)" where
  "sample g n vs =
     (if length vs < n
      then Inl (ValueError (''Cannot take a larger sample than population when '' @ quoted ''replace=False''))
      else Inr (draw g n vs))"

text \<open>
  \<open>pd.DataFrame(d)\<close> from a dict of arrays: the arrays must have one length.
\<close>

definition same_lengths :: "(string \<times> cell list) list \<Rightarrow> bool" where
  "same_lengths d =
     (case d of [] \<Rightarrow> True | (k, v) # rest \<Rightarrow> list_all (\<lambda>(k', v'). length v' = length v) rest)"

definition frame_of_dict :: "(string \<times> cell list) list \<Rightarrow> exn + (string \<times> cell list) list" where
  "frame_of_dict d =
     (if same_lengths d then Inr d else Inl (ValueError ''All arrays must be of the same length''))"

subsection \<open>The profiler \<open>df_overview\<close>\<close>

text \<open>
  \<open>pd.read_excel(file_path, sheet_name=sheet_name, engine='openpyxl')\<close>: the table of
  one sheet, with the column types pandas infers. For the profiler the content of a sheet
  is the \<open>DataFrame\<close> this call parses it to. A name that the workbook does not have
  raises \<open>ValueError\<close>.
\<close>

definition read_excel_sheet :: "(string \<Rightarrow> 's disk_file) \<Rightarrow> string \<Rightarrow> string \<Rightarrow> exn + 's" where
  "read_excel_sheet fs file_path sheet_name =
     (case open_workbook fs file_path of
        Inl e \<Rightarrow> Inl e
      | Inr wb \<Rightarrow>
          (case map_of wb sheet_name of
             None \<Rightarrow> Inl (ValueError (''Worksheet named '' @ quoted sheet_name @ '' not found''))
           | Some t \<Rightarrow> Inr t))"

record metadata =
  md_sheet_name :: string
  md_rows :: nat
  md_columns :: nat
  md_memory_mb :: rat
  md_duplicate_rows :: nat

record dq_row =
  dq_column :: string
  dq_data_type :: dtype
  dq_missing_values :: nat
  dq_pct_missing :: "rat option"
  dq_unique_values :: nat

record figure =
  fig_title :: string
  fig_bars :: "(string \<times> rat option) list"
  fig_tickangle :: int

text \<open>
  What the function puts in front of the user: a printed text, one of the three printed
  tables (the argument of \<open>tabulate\<close>), and the displayed chart.
\<close>

datatype event =
    Print string
  | Print_metadata metadata
  | Print_quality "dq_row list"
  | Print_samples "(string \<times> cell list) list"
  | Show figure

text \<open>
  The surroundings of one call: the file system, the draws of the random source, the deep
  memory estimate of pandas in bytes (it depends on the memory layout and stays a
  parameter), and the chart pipeline \<open>px.bar\<close>, \<open>update_layout\<close>, \<open>show\<close>, which either
  displays the figure or raises.
\<close>

record env =
  files :: "string \<Rightarrow> dataframe disk_file"
  rng :: "nat list"
  memory_usage :: "dataframe \<Rightarrow> nat"
  display :: "figure \<Rightarrow> exn option"

text \<open>Lines 39 to 45, the \<open>metadata\<close> dict.\<close>

definition metadata_of :: "env \<Rightarrow> string \<Rightarrow> dataframe \<Rightarrow> metadata" where
  "metadata_of ev sheet_name df =
     \<lparr> md_sheet_name = sheet_name,
       md_rows = shape0 df,
       md_columns = shape1 df,
       md_memory_mb = round_dec 2 (fl (of_nat (memory_usage ev df) / 1024 ^ 2)),
       md_duplicate_rows = sum_bool (duplicated df) \<rparr>"

text \<open>
  Lines 48 to 53, the frame \<open>dq\<close>. Its four columns are Series over the same index
  \<open>df.columns\<close>, so the frame has that index, in that order.
\<close>

definition pct_missing :: "cell list \<Rightarrow> rat option" where
  "pct_missing vs = map_option (\<lambda>m. np_round 1 (fl (m * 100))) (mean_bool (isnull vs))"

definition data_quality :: "dataframe \<Rightarrow> dq_row list" where
  "data_quality df =
     map (\<lambda>(col, dt, vs).
            \<lparr> dq_column = col,
              dq_data_type = dt,
              dq_missing_values = sum_bool (isnull vs),
              dq_pct_missing = pct_missing vs,
              dq_unique_values = nunique vs \<rparr>)
       (df_items df)"

text \<open>
  Lines 58 to 64, the right-hand sides of the three assignments to \<open>sample_values[col]\<close>:
  the sampled values and the random source after the draw, or the exception of \<open>sample\<close>.
\<close>

definition sample_column :: "nat list \<Rightarrow> dtype \<Rightarrow> cell list \<Rightarrow> exn + (cell list \<times> nat list)" where
  "sample_column g dt vs =
     (if dt = Object then sample g (min 3 (length vs)) (dropna vs)
      else if vs \<noteq> [] then sample g (min 3 (length vs)) vs
      else Inr ([], g))"

text \<open>Lines 56 and 57, the loop over \<open>df.columns\<close>; the first exception ends it.\<close>

fun sample_loop ::
  "nat list \<Rightarrow> (string \<times> dtype \<times> cell list) list \<Rightarrow> (string \<times> cell list) list
     \<Rightarrow> exn + ((string \<times> cell list) list \<times> nat list)" where
  "sample_loop g [] sample_values = Inr (sample_values, g)"
| "sample_loop g ((col, dt, vs) # rest) sample_values =
     (case sample_column g dt vs of
        Inl e \<Rightarrow> Inl e
      | Inr (s, g') \<Rightarrow> sample_loop g' rest (dict_set sample_values col s))"

definition rule60 :: string where
  "rule60 = replicate 60 (CHR ''-'')"

definition overview_header :: "string \<Rightarrow> string" where
  "overview_header sheet_name =
     ''\<newline>'' @ rule60 @ ''\<newline>DATA OVERVIEW: '' @ sheet_name @ ''\<newline>'' @ rule60"

definition quality_header :: string where
  "quality_header = ''\<newline>\<newline>'' @ rule60 @ ''\<newline>DATA QUALITY ASSESSMENT\<newline>'' @ rule60"

definition sample_header :: string where
  "sample_header = ''\<newline>\<newline>'' @ rule60 @ ''\<newline>VALUE SAMPLE\<newline>'' @ rule60"

text \<open>Lines 78 to 87, the figure handed to the chart pipeline.\<close>

definition missing_fig :: "string \<Rightarrow> dq_row list \<Rightarrow> figure" where
  "missing_fig sheet_name dq =
     \<lparr> fig_title = ''Missing Values by Column: '' @ sheet_name,
       fig_bars = map (\<lambda>r. (dq_column r, dq_pct_missing r)) dq,
       fig_tickangle = - 45 \<rparr>"

text \<open>Line 91, the line the handler prints.\<close>

definition error_line :: "string \<Rightarrow> exn \<Rightarrow> string" where
  "error_line sheet_name e = ''Error processing sheet '' @ quoted sheet_name @ '': '' @ str_exn e"

text \<open>
  Lines 36 to 88, the body of the \<open>try\<close>: the result is the exception that left the body
  or a normal end, together with everything put out up to that point. The three
  computations come first (lines 36 to 64); the output starts at line 67. In line 75
  \<open>pd.DataFrame(sample_values)\<close> is evaluated before \<open>print\<close> is called.
\<close>

definition df_overview_try :: "env \<Rightarrow> string \<Rightarrow> string \<Rightarrow> (exn + unit) \<times> event list" where
  "df_overview_try ev file_path sheet_name =
     (case read_excel_sheet (files ev) file_path sheet_name of
        Inl e \<Rightarrow> (Inl e, [])
      | Inr df \<Rightarrow>
          (let metadata = metadata_of ev sheet_name df;
               dq = data_quality df
           in case sample_loop (rng ev) (df_items df) [] of
                Inl e \<Rightarrow> (Inl e, [])
              | Inr (sample_values, g) \<Rightarrow>
                  (let out = [Print (overview_header sheet_name), Print_metadata metadata,
                              Print quality_header, Print_quality dq,
                              Print sample_header]
                   in case frame_of_dict sample_values of
                        Inl e \<Rightarrow> (Inl e, out)
                      | Inr t \<Rightarrow>
                          (let out' = out @ [Print_samples t];
                               fig = missing_fig sheet_name dq
                           in case display ev fig of
                                Some e \<Rightarrow> (Inl e, out')
                              | None \<Rightarrow> (Inr (), out' @ [Show fig])))))"

text \<open>
  The whole function: \<open>except Exception as e\<close> prints one line and the function ends
  without a \<open>return\<close>, so the caller gets \<open>None\<close> (here \<open>Inr ()\<close>); an exception that
  reached the caller would be \<open>Inl\<close>.
\<close>

definition df_overview :: "env \<Rightarrow> string \<Rightarrow> string \<Rightarrow> (exn + unit) \<times> event list" where
  "df_overview ev file_path sheet_name =
     (case df_overview_try ev file_path sheet_name of
        (Inl e, out) \<Rightarrow> (Inr (), out @ [Print (error_line sheet_name e)])
      | (Inr u, out) \<Rightarrow> (Inr u, out))"

subsection \<open>The loader \<open>read_all_excel_sheets\<close>\<close>

text \<open>
  For the loader the content of a sheet is the grid the openpyxl reader of pandas hands to
  the parser: the header labels, and the rows of cell values, where an empty cell arrives
  as the empty string.
\<close>

record xsheet =
  header :: "string list"
  body :: "cell list list"

text \<open>
  \<open>dtype=str\<close> with \<open>na_values\<close>: a text that is one of the missing-value markers
  becomes \<open>nan\<close>, a missing value stays \<open>nan\<close>, every other value \<open>v\<close> becomes the string
  \<open>str(v)\<close>. The markers are the ones passed plus the defaults of pandas
  (\<open>keep_default_na\<close> is not changed); the default list and \<open>str\<close> on numbers, bools and
  timestamps are parameters.
\<close>

definition coerce_cell :: "string list \<Rightarrow> (cell \<Rightarrow> string) \<Rightarrow> cell \<Rightarrow> cell" where
  "coerce_cell na str_of c =
     (case c of
        NaN \<Rightarrow> NaN
      | VStr s \<Rightarrow> if s \<in> set na then NaN else VStr s
      | _ \<Rightarrow> VStr (str_of c))"

definition parse_sheet_str :: "string list \<Rightarrow> (cell \<Rightarrow> string) \<Rightarrow> xsheet \<Rightarrow> dataframe" where
  "parse_sheet_str na str_of sh =
     \<lparr> columns = map (\<lambda>h. (h, Object)) (header sh),
       rows = map (map (coerce_cell na str_of)) (body sh) \<rparr>"

text \<open>\<open>sheet_name=None\<close>: every sheet is parsed and stored in a dict under its name.\<close>

fun read_sheets ::
  "string list \<Rightarrow> (cell \<Rightarrow> string) \<Rightarrow> (string \<times> xsheet) list \<Rightarrow> (string \<times> dataframe) list
     \<Rightarrow> (string \<times> dataframe) list" where
  "read_sheets na str_of [] output = output"
| "read_sheets na str_of ((name, sh) # wb) output =
     read_sheets na str_of wb (dict_set output name (parse_sheet_str na str_of sh))"

definition read_excel_all ::
  "string list \<Rightarrow> (cell \<Rightarrow> string) \<Rightarrow> (string \<Rightarrow> xsheet disk_file) \<Rightarrow> string \<Rightarrow> string list
     \<Rightarrow> exn + (string \<times> dataframe) list" where
  "read_excel_all default_na str_of fs file_path na_values =
     (case open_workbook fs file_path of
        Inl e \<Rightarrow> Inl e
      | Inr wb \<Rightarrow> Inr (read_sheets (na_values @ default_na) str_of wb []))"

text \<open>Lines 16 to 23: one call, its result returned as it is.\<close>

definition read_all_excel_sheets ::
  "string list \<Rightarrow> (cell \<Rightarrow> string) \<Rightarrow> (string \<Rightarrow> xsheet disk_file) \<Rightarrow> string
     \<Rightarrow> exn + (string \<times> dataframe) list" where
  "read_all_excel_sheets default_na str_of fs file_path =
     read_excel_all default_na str_of fs file_path ['''', ''NA'']"

subsection \<open>Notions of the specification\<close>

text \<open>The range check of the specification: a percentage in \<open>[0, 100]\<close>; \<open>nan\<close> is in no interval.\<close>

definition pct_in_range :: "rat option \<Rightarrow> bool" where
  "pct_in_range p = (case p of None \<Rightarrow> False | Some q \<Rightarrow> 0 \<le> q \<and> q \<le> 100)"

text \<open>
  Python's \<open>round(x, n)\<close> on a float, as the specification writes the percentage: the
  exact value of \<open>x\<close> rounded to \<open>n\<close> decimals, then the float64 nearest to that decimal.
\<close>

definition py_round :: "nat \<Rightarrow> rat \<Rightarrow> rat" where
  "py_round n x = fl (round_dec n x)"

text \<open>A line of the console is a diagnostic when it starts as the handler's line does.\<close>

definition is_diagnostic :: "event \<Rightarrow> bool" where
  "is_diagnostic ev =
     (case ev of Print t \<Rightarrow> take 23 t = ''Error processing sheet '' | _ \<Rightarrow> False)"

text \<open>
  The complete report in the order of the specification: metadata block, data-quality
  block, sample-values block, each under its heading, then the chart.
\<close>

definition report :: "env \<Rightarrow> string \<Rightarrow> dataframe \<Rightarrow> (string \<times> cell list) list \<Rightarrow> event list" where
  "report ev sheet_name df sample_values =
     [Print (overview_header sheet_name), Print_metadata (metadata_of ev sheet_name df),
      Print quality_header, Print_quality (data_quality df),
      Print sample_header, Print_samples sample_values,
      Show (missing_fig sheet_name (data_quality df))]"

subsection \<open>Example inputs\<close>

text \<open>A file system without any file, and \<open>str\<close> on the cells the examples contain.\<close>

definition no_files :: "string \<Rightarrow> xsheet disk_file" where
  "no_files p = No_such_file"

definition example_str :: "cell \<Rightarrow> string" where
  "example_str c =
     (case c of
        VNum q \<Rightarrow> (if q = 5 then ''5'' else if q = 7 then ''7'' else ''12'')
      | VBool b \<Rightarrow> (if b then ''True'' else ''False'')
      | _ \<Rightarrow> ''nan'')"

text \<open>The workbook \<open>book.xlsx\<close> with the two sheets \<open>Summary\<close> and \<open>Detail\<close>.\<close>

definition summary_detail :: "(string \<times> xsheet) list" where
  "summary_detail =
     [(''Summary'', \<lparr> header = [''total''], body = [[VNum 12]] \<rparr>),
      (''Detail'', \<lparr> header = [''id'', ''qty''],
                     body = [[VStr ''007'', VNum 5], [VStr ''008'', VNum 7]] \<rparr>)]"

definition book_fs :: "string \<Rightarrow> xsheet disk_file" where
  "book_fs p = (if p = ''book.xlsx'' then Workbook summary_detail else No_such_file)"

text \<open>
  The workbook \<open>codes.xlsx\<close>: one sheet with a text cell, an empty cell, a cell holding the
  text \<open>NA\<close> and a numeric cell.
\<close>

definition codes_sheet :: xsheet where
  "codes_sheet = \<lparr> header = [''code''], body = [[VStr ''007''], [VStr ''''], [VStr ''NA''], [VNum 5]] \<rparr>"

definition codes_fs :: "string \<Rightarrow> xsheet disk_file" where
  "codes_fs p = (if p = ''codes.xlsx'' then Workbook [(''Codes'', codes_sheet)] else No_such_file)"
text \<open>
  Frames for the profiler: a sheet with sparse columns, a sheet that has a header row and
  no data rows, and a sheet with repeated rows.
\<close>

definition sparse_df :: dataframe where
  "sparse_df =
     \<lparr> columns = [(''name'', Object), (''qty'', Float64)],
       rows = [[VStr ''a'', VNum 1], [NaN, NaN], [NaN, VNum 2]] \<rparr>"

definition header_only_df :: dataframe where
  "header_only_df = \<lparr> columns = [(''name'', Object)], rows = [] \<rparr>"

definition repeats_df :: dataframe where
  "repeats_df =
     \<lparr> columns = [(''item'', Object), (''ok'', Object)],
       rows = [[VStr ''a'', VBool True], [VStr ''a'', VNum 1], [VStr ''b'', NaN],
               [VStr ''a'', VBool True], [VStr ''b'', NaN]] \<rparr>"

text \<open>
  The surroundings of a call in which \<open>orders.xlsx\<close> has the one sheet \<open>Q1\<close> with the
  given table, the random source is exhausted and the chart is displayed.
\<close>

definition orders_env :: "dataframe \<Rightarrow> env" where
  "orders_env df =
     \<lparr> files = (\<lambda>p. if p = ''orders.xlsx'' then Workbook [(''Q1'', df)] else No_such_file),
       rng = [],
       memory_usage = (\<lambda>d. 0),
       display = (\<lambda>f. None) \<rparr>"


text \<open>The same surroundings on a host where the chart cannot be displayed.\<close>

definition no_renderer_env :: "dataframe \<Rightarrow> env" where
  "no_renderer_env df =
     \<lparr> files = (\<lambda>p. if p = ''orders.xlsx'' then Workbook [(''Q1'', df)] else No_such_file),
       rng = [],
       memory_usage = (\<lambda>d. 0),
       display = (\<lambda>f. Some (RenderError
         ''Mime type rendering requires nbformat>=4.2.0 but it is not installed'')) \<rparr>"

text \<open>
  Two sheets with one numeric column: 2000 rows of which the first is empty, and 80 rows
  of which the first 23 are empty. A numeric column with five values, two of them missing.
\<close>

definition one_in_2000_df :: dataframe where
  "one_in_2000_df =
     \<lparr> columns = [(''amount'', Float64)], rows = [NaN] # replicate 1999 [VNum 1] \<rparr>"

definition gaps_df :: dataframe where
  "gaps_df =
     \<lparr> columns = [(''amount'', Float64)],
       rows = replicate 23 [NaN] @ replicate 57 [VNum 1] \<rparr>"


subsection \<open>Facts about dictionaries and the sheet loop\<close>


lemma keys_dict_set: "keys (dict_set d k v) = (if k \<in> set (keys d) then keys d else keys d @ [k])"
  by (induction d) (force simp: keys_def)+

lemma set_keys_dict_set: "set (keys (dict_set d k v)) = insert k (set (keys d))"
  by (auto simp: keys_dict_set)

lemma distinct_keys_dict_set: "distinct (keys d) \<Longrightarrow> distinct (keys (dict_set d k v))"
  by (simp add: keys_dict_set)

lemma map_of_dict_set: "map_of (dict_set d k v) = (map_of d)(k \<mapsto> v)"
  by (induction d) (auto simp: fun_eq_iff)

lemma set_dict_set: "x \<in> set (dict_set d k v) \<Longrightarrow> x \<in> set d \<or> x = (k, v)"
  by (induction d) (auto split: if_splits)

lemma set_keys_read_sheets:
  "set (keys (read_sheets na str_of wb out)) = set (keys out) \<union> fst ` set wb"
proof (induction wb arbitrary: out)
  case Nil
  then show ?case by simp
next
  case (Cons a wb)
  obtain name sh where a: "a = (name, sh)" by (cases a)
  show ?case by (simp add: a Cons.IH set_keys_dict_set)
qed

lemma distinct_keys_read_sheets:
  "distinct (keys out) \<Longrightarrow> distinct (keys (read_sheets na str_of wb out))"
  by (induction wb arbitrary: out) (auto simp: distinct_keys_dict_set)

lemma keys_read_sheets_distinct:
  "distinct (map fst wb) \<Longrightarrow> set (keys out) \<inter> fst ` set wb = {} \<Longrightarrow>
   keys (read_sheets na str_of wb out) = keys out @ map fst wb"
proof (induction wb arbitrary: out)
  case Nil
  then show ?case by simp
next
  case (Cons a wb)
  obtain name sh where a: "a = (name, sh)" by (cases a)
  from Cons.prems a have new: "name \<notin> set (keys out)" by auto
  have k: "keys (dict_set out name (parse_sheet_str na str_of sh)) = keys out @ [name]"
    using new by (simp add: keys_dict_set)
  from Cons.prems a have d: "distinct (map fst wb)" and n: "name \<notin> fst ` set wb" by auto
  have "set (keys (dict_set out name (parse_sheet_str na str_of sh))) \<inter> fst ` set wb = {}"
    using Cons.prems(2) a n by (auto simp: k)
  from Cons.IH [OF d this] show ?case by (simp add: a k)
qed

lemma map_of_read_sheets:
  "distinct (map fst wb) \<Longrightarrow>
   map_of (read_sheets na str_of wb out) name =
     (case map_of wb name of None \<Rightarrow> map_of out name | Some sh \<Rightarrow> Some (parse_sheet_str na str_of sh))"
proof (induction wb arbitrary: out)
  case Nil
  then show ?case by simp
next
  case (Cons a wb)
  obtain n sh where a: "a = (n, sh)" by (cases a)
  from Cons.prems a have d: "distinct (map fst wb)" and n: "n \<notin> fst ` set wb" by auto
  from n have none: "map_of wb n = None" by (simp add: map_of_eq_None_iff)
  show ?case using Cons.IH [OF d] none
    by (auto simp: a map_of_dict_set split: option.splits)
qed

lemma values_read_sheets:
  "(name, t) \<in> set (read_sheets na str_of wb out) \<Longrightarrow>
   (name, t) \<in> set out \<or> (\<exists>sh. (name, sh) \<in> set wb \<and> t = parse_sheet_str na str_of sh)"
proof (induction wb arbitrary: out)
  case Nil
  then show ?case by simp
next
  case (Cons a wb)
  obtain n sh where a: "a = (n, sh)" by (cases a)
  from Cons.IH [of "dict_set out n (parse_sheet_str na str_of sh)"] Cons.prems a
  have "(name, t) \<in> set (dict_set out n (parse_sheet_str na str_of sh)) \<or>
        (\<exists>sh. (name, sh) \<in> set wb \<and> t = parse_sheet_str na str_of sh)" by simp
  then show ?case using set_dict_set [of "(name, t)" out n "parse_sheet_str na str_of sh"] a
    by auto
qed

lemma keys_Nil: "keys [] = []"
  by (simp add: keys_def)

lemma length_keys: "length (keys d) = length d"
  by (simp add: keys_def)

subsection \<open>Facts about the pandas operations\<close>

lemma length_df_items: "length (df_items df) = shape1 df"
  by (simp add: df_items_def shape1_def)

lemma df_items_nth:
  "j < shape1 df \<Longrightarrow>
   df_items df ! j = (fst (columns df ! j), snd (columns df ! j), map (\<lambda>r. r ! j) (rows df))"
  by (simp add: df_items_def shape1_def)

lemma df_items_labels: "map fst (df_items df) = map fst (columns df)"
proof -
  have "map fst (df_items df) = map (\<lambda>j. fst (columns df ! j)) [0..<length (columns df)]"
    by (simp add: df_items_def comp_def)
  also have "\<dots> = map fst (map (\<lambda>j. columns df ! j) [0..<length (columns df)])"
    by (simp add: comp_def)
  also have "\<dots> = map fst (columns df)"
    by (simp only: map_nth)
  finally show ?thesis .
qed

lemma df_items_length_vals:
  assumes "(col, dt, vs) \<in> set (df_items df)"
  shows "length vs = shape0 df"
  using assms by (auto simp: df_items_def shape0_def)

lemma missing_plus_present: "sum_bool (isnull vs) + count_notnull vs = length vs"
proof -
  have "sum_bool (isnull vs) = length (filter (\<lambda>c. c = NaN) vs)"
    by (simp add: sum_bool_def isnull_def filter_map comp_def)
  moreover have "count_notnull vs = length (filter (\<lambda>c. \<not> c = NaN) vs)"
    by (simp add: count_notnull_def dropna_def)
  ultimately show ?thesis
    using sum_length_filter_compl [of "\<lambda>c. c = NaN" vs] by simp
qed

lemma sum_bool_le_length: "sum_bool bs \<le> length bs"
  by (simp add: sum_bool_def)

lemma pct_missing_eq:
  "pct_missing vs =
     (if vs = [] then None
      else Some (np_round 1
             (fl (fl (of_nat (sum_bool (isnull vs)) / of_nat (length vs)) * 100))))"
  by (simp add: pct_missing_def mean_bool_def isnull_def)

text \<open>
  Facts about float64: the exponent brackets its argument, and rounding to float64 moves
  a number by at most the fraction \<open>2^-53\<close> of itself.
\<close>

lemma round_half_even_lower: "of_int k \<le> x \<Longrightarrow> k \<le> round_half_even x"
proof -
  assume "of_int k \<le> x"
  then have "k \<le> \<lfloor>x\<rfloor>" by (simp add: le_floor_iff)
  then show ?thesis by (simp add: round_half_even_def Let_def)
qed

lemma round_half_even_upper: "x \<le> of_int k \<Longrightarrow> round_half_even x \<le> k"
proof -
  assume le: "x \<le> of_int k"
  then have f: "\<lfloor>x\<rfloor> \<le> k" by (simp add: floor_le_iff)
  show ?thesis
  proof (cases "x - of_int \<lfloor>x\<rfloor> < 1 / 2")
    case True
    with f show ?thesis by (simp add: round_half_even_def Let_def)
  next
    case False
    then have "of_int \<lfloor>x\<rfloor> < x" by simp
    with le have "of_int \<lfloor>x\<rfloor> < (of_int k :: rat)" by simp
    then have "\<lfloor>x\<rfloor> < k" by simp
    then have "\<lfloor>x\<rfloor> + 1 \<le> k" by simp
    with f show ?thesis by (simp add: round_half_even_def Let_def)
  qed
qed

lemma round_half_even_near: "\<bar>of_int (round_half_even y) - y\<bar> \<le> 1 / 2"
proof -
  have lo: "of_int \<lfloor>y\<rfloor> \<le> y" by simp
  have hi: "y < of_int \<lfloor>y\<rfloor> + 1" by linarith
  show ?thesis
  proof (cases "y - of_int \<lfloor>y\<rfloor> < 1 / 2")
    case True
    then have "round_half_even y = \<lfloor>y\<rfloor>" by (simp add: round_half_even_def Let_def)
    with True lo show ?thesis by simp
  next
    case False
    show ?thesis
    proof (cases "1 / 2 < y - of_int \<lfloor>y\<rfloor>")
      case True
      with False have "round_half_even y = \<lfloor>y\<rfloor> + 1" by (simp add: round_half_even_def Let_def)
      with True hi show ?thesis by simp
    next
      case nb: False
      with False have eq: "y - of_int \<lfloor>y\<rfloor> = 1 / 2" by linarith
      have "round_half_even y = \<lfloor>y\<rfloor> \<or> round_half_even y = \<lfloor>y\<rfloor> + 1"
        by (simp add: round_half_even_def Let_def)
      with eq show ?thesis by auto
    qed
  qed
qed

lemma powi_nat: "0 \<le> d \<Longrightarrow> (2::rat) powi d = 2 ^ nat d"
  by (simp add: power_int_def)

lemma expo_lower:
  assumes "0 < x"
  shows "2 powi (expo x) \<le> x"
proof -
  obtain p q where pq: "quotient_of x = (p, q)" by (cases "quotient_of x")
  then have q: "0 < q" by (rule quotient_of_denom_pos)
  from pq have x: "x = of_int p / of_int q" by (rule quotient_of_div)
  from assms x q have p: "0 < p" by (simp add: zero_less_divide_iff)
  let ?d = "bitlen p - bitlen q"
  show ?thesis
  proof (cases "2 powi ?d \<le> x")
    case True
    then show ?thesis by (simp add: expo_def pq)
  next
    case False
    then have e: "expo x = ?d - 1" by (simp add: expo_def pq)
    from bitlen_bounds [OF p] have pl: "2 ^ nat (bitlen p - 1) \<le> p" by simp
    from bitlen_bounds [OF q] have qu: "q < 2 ^ nat (bitlen q)" by simp
    have bp: "1 \<le> bitlen p" using p by (simp add: bitlen_alt_def)
    have bq: "0 \<le> bitlen q" by (rule bitlen_nonneg)
    from pl have plr: "(2::rat) ^ nat (bitlen p - 1) \<le> of_int p"
      by (metis of_int_le_iff of_int_numeral of_int_power)
    from qu have qur: "(of_int q :: rat) \<le> 2 ^ nat (bitlen q)"
      by (metis less_imp_le of_int_le_iff of_int_numeral of_int_power)
    have "(2::rat) powi (?d - 1) = 2 powi (bitlen p - 1) / 2 powi (bitlen q)"
      by (simp add: power_int_diff)
    also have "\<dots> = 2 ^ nat (bitlen p - 1) / 2 ^ nat (bitlen q)"
      using bp bq by (simp add: powi_nat)
    also have "\<dots> \<le> of_int p / of_int q"
    proof (rule frac_le)
      show "(0::rat) \<le> of_int p" using p by simp
      show "(2::rat) ^ nat (bitlen p - 1) \<le> of_int p" by (rule plr)
      show "(0::rat) < of_int q" using q by simp
      show "(of_int q :: rat) \<le> 2 ^ nat (bitlen q)" by (rule qur)
    qed
    finally have "(2::rat) powi (?d - 1) \<le> of_int p / of_int q" .
    then have "(2::rat) powi (?d - 1) \<le> x" by (simp only: x [symmetric])
    then show ?thesis by (simp only: e)
  qed
qed

lemma expo_upper:
  assumes "0 < x"
  shows "x < 2 powi (expo x + 1)"
proof -
  obtain p q where pq: "quotient_of x = (p, q)" by (cases "quotient_of x")
  then have q: "0 < q" by (rule quotient_of_denom_pos)
  from pq have x: "x = of_int p / of_int q" by (rule quotient_of_div)
  from assms x q have p: "0 < p" by (simp add: zero_less_divide_iff)
  let ?d = "bitlen p - bitlen q"
  show ?thesis
  proof (cases "2 powi ?d \<le> x")
    case False
    then have "expo x = ?d - 1" by (simp add: expo_def pq)
    with False show ?thesis by simp
  next
    case True
    then have e: "expo x = ?d" by (simp add: expo_def pq)
    from bitlen_bounds [OF p] have pu: "p < 2 ^ nat (bitlen p)" by simp
    from bitlen_bounds [OF q] have ql: "2 ^ nat (bitlen q - 1) \<le> q" by simp
    have bp: "0 \<le> bitlen p" by (rule bitlen_nonneg)
    have bq: "1 \<le> bitlen q" using q by (simp add: bitlen_alt_def)
    from pu have pur: "(of_int p :: rat) < 2 ^ nat (bitlen p)"
      by (metis of_int_less_iff of_int_numeral of_int_power)
    from ql have qlr: "(2::rat) ^ nat (bitlen q - 1) \<le> of_int q"
      by (metis of_int_le_iff of_int_numeral of_int_power)
    have "of_int p / of_int q < (2::rat) ^ nat (bitlen p) / 2 ^ nat (bitlen q - 1)"
    proof (rule frac_less)
      show "(0::rat) \<le> of_int p" using p by simp
      show "(of_int p :: rat) < 2 ^ nat (bitlen p)" by (rule pur)
      show "(0::rat) < 2 ^ nat (bitlen q - 1)" by simp
      show "(2::rat) ^ nat (bitlen q - 1) \<le> of_int q" by (rule qlr)
    qed
    also have "\<dots> = 2 powi (bitlen p) / 2 powi (bitlen q - 1)"
      using bp bq by (simp add: powi_nat)
    also have "\<dots> = 2 powi (bitlen p - (bitlen q - 1))"
      by (simp add: power_int_diff)
    also have "bitlen p - (bitlen q - 1) = ?d + 1" by simp
    finally have "of_int p / of_int q < (2::rat) powi (?d + 1)" .
    then have "x < (2::rat) powi (?d + 1)" by (simp only: x [symmetric])
    then show ?thesis by (simp only: e)
  qed
qed

lemma fl_nonneg: "0 \<le> x \<Longrightarrow> 0 \<le> fl x"
proof (cases "x = 0")
  case True
  then show ?thesis by (simp add: fl_def)
next
  case False
  assume "0 \<le> x"
  let ?u = "(2::rat) powi (expo \<bar>x\<bar> - 52)"
  have u: "0 < ?u" by (simp add: zero_less_power_int)
  with \<open>0 \<le> x\<close> have "of_int 0 \<le> x / ?u" by simp
  then have "0 \<le> round_half_even (x / ?u)" by (rule round_half_even_lower)
  then have "(0::rat) \<le> of_int (round_half_even (x / ?u))" by simp
  with u have "0 \<le> of_int (round_half_even (x / ?u)) * ?u" by simp
  with False show ?thesis by (simp add: fl_def Let_def)
qed

lemma fl_near:
  assumes "0 \<le> x"
  shows "\<bar>fl x - x\<bar> \<le> x / 2 ^ 53"
proof (cases "x = 0")
  case True
  then show ?thesis by (simp add: fl_def)
next
  case False
  with assms have pos: "0 < x" by simp
  let ?e = "expo x"
  let ?u = "(2::rat) powi (?e - 52)"
  have u: "0 < ?u" by (simp add: zero_less_power_int)
  have f: "fl x = of_int (round_half_even (x / ?u)) * ?u"
    using False pos by (simp add: fl_def Let_def)
  have "\<bar>fl x - x\<bar> = \<bar>of_int (round_half_even (x / ?u)) - x / ?u\<bar> * ?u"
  proof -
    have "fl x - x = (of_int (round_half_even (x / ?u)) - x / ?u) * ?u"
      using u by (simp add: f left_diff_distrib)
    then show ?thesis using u by (simp add: abs_mult)
  qed
  also have "\<dots> \<le> 1 / 2 * ?u"
    using round_half_even_near [of "x / ?u"] u by (simp add: mult_right_mono)
  also have "\<dots> = 2 powi ?e / 2 ^ 53"
  proof -
    have "(2::rat) powi (?e - 52) = 2 powi ?e / 2 powi 52" by (simp add: power_int_diff)
    then show ?thesis by simp
  qed
  also have "\<dots> \<le> x / 2 ^ 53"
    using expo_lower [OF pos] by (simp add: divide_right_mono)
  finally show ?thesis .
qed

lemma fl_100: "fl 100 = 100"
  by code_simp


lemma fl_1000: "fl 1000 = 1000"
  by code_simp

lemma np_round_share:
  fixes m n :: nat
  assumes "m \<le> n" and "0 < n"
  shows "\<exists>k. 0 \<le> k \<and> k \<le> 1000 \<and>
           np_round 1 (fl (fl (of_nat m / of_nat n) * 100)) = fl (of_int k / 10) \<and>
           \<bar>of_int k / 10 - (of_nat m / of_nat n * 100 :: rat)\<bar> \<le> 1 / 20 + 1 / 10 ^ 12 \<and>
           0 \<le> fl (of_int k / 10) \<and> fl (of_int k / 10) \<le> 100"
proof -
  define x :: rat where "x = of_nat m / of_nat n"
  define dl :: rat where "dl = 1 / 2 ^ 53"
  define a where "a = fl x"
  define b where "b = fl (a * 100)"
  define c where "c = fl (b * 10)"
  define k where "k = round_half_even c"
  have dl: "0 < dl" "dl \<le> 1 / 1000000000000000" by (simp_all add: dl_def)
  have x0: "0 \<le> x" by (simp add: x_def)
  have x1: "x \<le> 1" using assms by (simp add: x_def divide_le_eq)
  have a0: "0 \<le> a" unfolding a_def using x0 by (rule fl_nonneg)
  have "\<bar>a - x\<bar> \<le> x * dl" unfolding a_def dl_def using fl_near [OF x0] by simp
  moreover have "x * dl \<le> 1 * dl" using x1 dl(1) by (intro mult_right_mono) simp_all
  ultimately have ax: "\<bar>a - x\<bar> \<le> dl" by simp
  from ax x1 dl have a2: "a \<le> 2" by linarith
  have a100: "0 \<le> a * 100" using a0 by simp
  have b0: "0 \<le> b" unfolding b_def using a100 by (rule fl_nonneg)
  have "\<bar>b - a * 100\<bar> \<le> a * 100 * dl" unfolding b_def dl_def using fl_near [OF a100] by simp
  moreover have "a * 100 * dl \<le> 2 * 100 * dl" using a2 dl(1) by (intro mult_right_mono) simp_all
  ultimately have ba: "\<bar>b - a * 100\<bar> \<le> 200 * dl" by simp
  from ba ax x1 dl have b101: "b \<le> 101" by linarith
  have b10: "0 \<le> b * 10" using b0 by simp
  have c0: "0 \<le> c" unfolding c_def using b10 by (rule fl_nonneg)
  have "\<bar>c - b * 10\<bar> \<le> b * 10 * dl" unfolding c_def dl_def using fl_near [OF b10] by simp
  moreover have "b * 10 * dl \<le> 101 * 10 * dl" using b101 dl(1) by (intro mult_right_mono) simp_all
  ultimately have cb: "\<bar>c - b * 10\<bar> \<le> 1010 * dl" by simp
  have kc: "\<bar>of_int k - c\<bar> \<le> 1 / 2" unfolding k_def by (rule round_half_even_near)
  have "of_int 0 \<le> c" using c0 by simp
  then have k0: "0 \<le> k" unfolding k_def by (rule round_half_even_lower)
  from kc cb ba ax have kx: "\<bar>of_int k - x * 1000\<bar> \<le> 1 / 2 + 4010 * dl" by linarith
  from kx x1 dl have "(of_int k :: rat) < 1001" by linarith
  then have "(of_int k :: rat) < of_int 1001" by simp
  then have "k < 1001" by (simp only: of_int_less_iff)
  then have k1000: "k \<le> 1000" by simp
  from kx dl have "\<bar>of_int k / 10 - x * 100\<bar> \<le> 1 / 20 + 1 / 1000000000000" by linarith
  then have near: "\<bar>of_int k / 10 - x * 100\<bar> \<le> 1 / 20 + 1 / 10 ^ 12" by simp
  have k10: "(0::rat) \<le> of_int k / 10" using k0 by simp
  have p0: "0 \<le> fl (of_int k / 10)" using k10 by (rule fl_nonneg)
  have p100: "fl (of_int k / 10) \<le> 100"
  proof (cases "k = 1000")
    case True
    then show ?thesis by (simp add: fl_100)
  next
    case False
    with k1000 have "k \<le> 999" by simp
    then have "(of_int k :: rat) \<le> of_int 999" by (simp only: of_int_le_iff)
    then have k999: "(of_int k :: rat) / 10 \<le> 999 / 10" by simp
    have "\<bar>fl (of_int k / 10) - of_int k / 10\<bar> \<le> of_int k / 10 * dl"
      unfolding dl_def using fl_near [OF k10] by simp
    moreover have "of_int k / 10 * dl \<le> 999 / 10 * dl"
      using k999 dl(1) by (intro mult_right_mono) simp_all
    ultimately show ?thesis using k999 dl by linarith
  qed
  have eq: "np_round 1 (fl (fl (of_nat m / of_nat n) * 100)) = fl (of_int k / 10)"
    unfolding np_round_def k_def c_def b_def a_def x_def by simp
  from near have near': "\<bar>of_int k / 10 - (of_nat m / of_nat n * 100 :: rat)\<bar> \<le> 1 / 20 + 1 / 10 ^ 12"
    unfolding x_def .
  show ?thesis
    by (rule exI [of _ k]) (intro conjI k0 k1000 eq near' p0 p100)
qed

lemma length_draw: "length (fst (draw g n xs)) = min n (length xs)"
proof (induction g n xs rule: draw.induct)
  case (1 g xs)
  then show ?case by simp
next
  case (2 g n)
  then show ?case by simp
next
  case (3 g n x xs)
  define i where "i = (case g of [] \<Rightarrow> 0 | r # _ \<Rightarrow> r mod Suc (length xs))"
  have i: "i < Suc (length xs)" by (cases g) (simp_all add: i_def)
  have len: "length (take i (x # xs) @ drop (Suc i) (x # xs)) = length xs"
    using i by (simp add: min_def)
  from 3 [of i, OF i_def] len
  have "length (fst (draw (tl g) n (take i (x # xs) @ drop (Suc i) (x # xs)))) = min n (length xs)"
    by simp
  then show ?case
    by (simp add: i_def [symmetric] Let_def case_prod_beta)
qed

lemma set_draw: "set (fst (draw g n xs)) \<subseteq> set xs"
proof (induction g n xs rule: draw.induct)
  case (1 g xs)
  then show ?case by simp
next
  case (2 g n)
  then show ?case by simp
next
  case (3 g n x xs)
  define i where "i = (case g of [] \<Rightarrow> 0 | r # _ \<Rightarrow> r mod Suc (length xs))"
  have i: "i < length (x # xs)" by (cases g) (simp_all add: i_def)
  have sub: "set (take i (x # xs) @ drop (Suc i) (x # xs)) \<subseteq> set (x # xs)"
    using set_take_subset [of i "x # xs"] set_drop_subset [of "Suc i" "x # xs"] by auto
  from 3 [of i, OF i_def]
  have "set (fst (draw (tl g) n (take i (x # xs) @ drop (Suc i) (x # xs)))) \<subseteq> set (x # xs)"
    using sub by blast
  moreover have "(x # xs) ! i \<in> set (x # xs)" using i by (rule nth_mem)
  ultimately show ?case
    by (simp add: i_def [symmetric] Let_def case_prod_beta)
qed

lemma length_dup_flags: "length (dup_flags seen rs) = length rs"
  by (induction rs arbitrary: seen) simp_all

lemma dup_flags_nth:
  "i < length rs \<Longrightarrow> dup_flags seen rs ! i = (rs ! i \<in> set seen \<union> set (take i rs))"
proof (induction rs arbitrary: seen i)
  case Nil
  then show ?case by simp
next
  case (Cons r rs)
  show ?case
  proof (cases i)
    case 0
    then show ?thesis by simp
  next
    case (Suc k)
    with Cons.prems have "k < length rs" by simp
    from Cons.IH [OF this, of "seen @ [r]"] Suc show ?thesis by auto
  qed
qed

lemma sum_bool_Cons: "sum_bool (b # bs) = (if b then 1 else 0) + sum_bool bs"
  by (simp add: sum_bool_def)

lemma sum_bool_dup_flags:
  "sum_bool (dup_flags seen rs) + card (set rs - set seen) = length rs"
proof (induction rs arbitrary: seen)
  case Nil
  then show ?case by (simp add: sum_bool_def)
next
  case (Cons r rs)
  have ih: "sum_bool (dup_flags (seen @ [r]) rs) + card (set rs - set seen - {r}) = length rs"
  proof -
    have "set rs - set (seen @ [r]) = set rs - set seen - {r}" by auto
    with Cons.IH [of "seen @ [r]"] show ?thesis by (simp only:)
  qed
  show ?case
  proof (cases "r \<in> set seen")
    case True
    then have "set (r # rs) - set seen = set rs - set seen - {r}" by auto
    with ih True show ?thesis by (simp add: sum_bool_Cons)
  next
    case False
    then have s: "set (r # rs) - set seen = insert r (set rs - set seen - {r})" by auto
    have "card (insert r (set rs - set seen - {r})) = Suc (card (set rs - set seen - {r}))"
      by (rule card_insert_disjoint) simp_all
    with ih False s show ?thesis by (simp add: sum_bool_Cons)
  qed
qed

lemma sum_bool_dup_flags_fresh: "sum_bool (dup_flags [] rs) + card (set rs) = length rs"
  using sum_bool_dup_flags [of "[]" rs] by simp

lemma sum_multiplicity_less_one:
  "(\<Sum>r \<in> set rs. count_list rs r - 1) + card (set rs) = length rs"
proof -
  have "(\<Sum>r \<in> set rs. count_list rs r - 1) + card (set rs) =
        (\<Sum>r \<in> set rs. (count_list rs r - 1) + 1)"
    by (simp only: sum.distrib sum_constant mult_1_right of_nat_id)
  also have "\<dots> = (\<Sum>r \<in> set rs. count_list rs r)"
  proof (rule sum.cong)
    fix r assume "r \<in> set rs"
    then have "count_list rs r \<noteq> 0" by (simp only: count_list_0_iff not_not)
    then have "0 < count_list rs r" by simp
    then show "count_list rs r - 1 + 1 = count_list rs r" by simp
  qed simp
  also have "\<dots> = length rs"
    by (rule sum_count_set) simp_all
  finally show ?thesis .
qed

lemma duplicate_rows_eq:
  "columns df \<noteq> [] \<Longrightarrow> duplicated df = dup_flags [] (map (map py_key) (rows df))"
  by (cases "rows df") (simp_all add: duplicated_def df_empty_def shape0_def shape1_def)

lemma sample_enough: "n \<le> length vs \<Longrightarrow> sample g n vs = Inr (draw g n vs)"
  by (simp add: sample_def)

lemma sample_short: "length vs < n \<Longrightarrow> \<exists>e. sample g n vs = Inl e"
  by (simp add: sample_def)

lemma sample_column_other:
  "dt \<noteq> Object \<Longrightarrow> sample_column g dt vs = Inr (draw g (min 3 (length vs)) vs)"
  by (cases "vs = []") (simp_all add: sample_column_def sample_enough)

lemma sample_column_text:
  "min 3 (length vs) \<le> count_notnull vs \<Longrightarrow>
   sample_column g Object vs = Inr (draw g (min 3 (length vs)) (dropna vs))"
  by (simp add: sample_column_def sample_enough count_notnull_def)

lemma count_notnull_le: "count_notnull vs \<le> length vs"
  by (simp add: count_notnull_def dropna_def)

lemma sample_column_length:
  assumes "sample_column g dt vs = Inr (s, g')"
  shows "length s = min 3 (length vs)"
proof (cases "dt = Object")
  case True
  show ?thesis
  proof (cases "min 3 (length vs) \<le> count_notnull vs")
    case le: True
    from sample_column_text [OF le, of g] assms True
    have "draw g (min 3 (length vs)) (dropna vs) = (s, g')" by simp
    then have "fst (draw g (min 3 (length vs)) (dropna vs)) = s" by simp
    then have "length s = min (min 3 (length vs)) (length (dropna vs))"
      using length_draw [of g "min 3 (length vs)" "dropna vs"] by simp
    with le show ?thesis by (simp add: count_notnull_def)
  next
    case False
    then have "length (dropna vs) < min 3 (length vs)"
      unfolding count_notnull_def by linarith
    from sample_short [OF this, of g] assms True show ?thesis
      by (auto simp: sample_column_def)
  qed
next
  case False
  from sample_column_other [OF False, of g vs] assms
  have "draw g (min 3 (length vs)) vs = (s, g')" by simp
  then have "fst (draw g (min 3 (length vs)) vs) = s" by simp
  then have "length s = min (min 3 (length vs)) (length vs)"
    using length_draw [of g "min 3 (length vs)" vs] by simp
  then show ?thesis by simp
qed





lemma draw_first:
  assumes "i < length xs" and "0 < n"
  shows "\<exists>ys g'. draw (i # g) n xs = (xs ! i # ys, g')"
proof -
  from assms(2) obtain n' where n: "n = Suc n'" by (cases n) simp_all
  from assms(1) obtain x xs' where xs: "xs = x # xs'" by (cases xs) simp_all
  from assms(1) xs have m: "i mod Suc (length xs') = i" by simp
  obtain ys g' where "draw g n' (take i (x # xs') @ drop (Suc i) (x # xs')) = (ys, g')"
    by (cases "draw g n' (take i (x # xs') @ drop (Suc i) (x # xs'))")
  then have "draw (i # g) (Suc n') (x # xs') = ((x # xs') ! i # ys, g')"
    by (simp add: m Let_def)
  then show ?thesis by (simp only: n xs) blast
qed


lemma try_prints_no_diagnostic:
  "filter is_diagnostic (snd (df_overview_try ev file_path sheet_name)) = []"
  by (simp add: df_overview_try_def Let_def is_diagnostic_def overview_header_def
      quality_header_def sample_header_def split: sum.splits option.splits prod.splits)

lemma error_line_is_diagnostic: "is_diagnostic (Print (error_line sheet_name e))"
  by (simp add: is_diagnostic_def error_line_def)

lemma read_excel_sheet_absent:
  assumes "fs file_path = Workbook wb" and "sheet_name \<notin> fst ` set wb"
  shows "read_excel_sheet fs file_path sheet_name =
           Inl (ValueError (''Worksheet named '' @ quoted sheet_name @ '' not found''))"
proof -
  from assms(2) have "map_of wb sheet_name = None" by (simp add: map_of_eq_None_iff)
  with assms(1) show ?thesis by (simp add: read_excel_sheet_def open_workbook_def)
qed

lemma dict_set_lengths:
  assumes "\<forall>(k, v) \<in> set d. length v = m" and "length s = m"
  shows "\<forall>(k, v) \<in> set (dict_set d c s). length v = m"
proof -
  have "length v = m" if "(k, v) \<in> set (dict_set d c s)" for k v
  proof -
    from set_dict_set [OF that] have "(k, v) \<in> set d \<or> (k, v) = (c, s)" .
    with assms show ?thesis by auto
  qed
  then show ?thesis by auto
qed

lemma sample_loop_lengths:
  assumes "\<forall>(c, dt, vs) \<in> set items. length vs = n"
    and "\<forall>(k, v) \<in> set acc. length v = min 3 n"
    and "sample_loop g items acc = Inr (sv, g')"
  shows "\<forall>(k, v) \<in> set sv. length v = min 3 n"
  using assms
proof (induction items arbitrary: g acc)
  case Nil
  then show ?case by simp
next
  case (Cons it items)
  obtain c dt vs where it: "it = (c, dt, vs)" by (cases it)
  from Cons.prems(1) it have n: "length vs = n" by simp
  from Cons.prems(3) it obtain s g1 where
    s: "sample_column g dt vs = Inr (s, g1)" and
    rest: "sample_loop g1 items (dict_set acc c s) = Inr (sv, g')"
    by (auto split: sum.splits)
  from sample_column_length [OF s] n have "length s = min 3 n" by simp
  with Cons.prems(2) have acc: "\<forall>(k, v) \<in> set (dict_set acc c s). length v = min 3 n"
    by (rule dict_set_lengths)
  from Cons.prems(1) have "\<forall>(c, dt, vs) \<in> set items. length vs = n" by simp
  from Cons.IH [OF this acc rest] show ?case .
qed

lemma same_lengths_const: "\<forall>(k, v) \<in> set d. length v = m \<Longrightarrow> same_lengths d"
  by (cases d) (auto simp: same_lengths_def list_all_iff)

text \<open>
  Every successful draw has \<open>min(3, rows)\<close> values, so the arrays of \<open>sample_values\<close> have
  one length and \<open>pd.DataFrame(sample_values)\<close> does not raise.
\<close>

lemma sample_loop_frame:
  assumes "sample_loop g (df_items df) [] = Inr (sv, g')"
  shows "frame_of_dict sv = Inr sv"
proof -
  have "\<forall>(c, dt, vs) \<in> set (df_items df). length vs = shape0 df"
    using df_items_length_vals by auto
  moreover have "\<forall>(k, v) \<in> set ([] :: (string \<times> cell list) list). length v = min 3 (shape0 df)"
    by simp
  ultimately have "\<forall>(k, v) \<in> set sv. length v = min 3 (shape0 df)"
    using assms by (rule sample_loop_lengths)
  then have "same_lengths sv" by (rule same_lengths_const)
  then show ?thesis by (simp add: frame_of_dict_def)
qed

section \<open>The loader\<close>

text \<open>
  Claim C7. When loading fails, the loader hands the caller the error of the one
  \<open>pd.read_excel\<close> call as it is and no table: whatever error \<open>e\<close> opening the path
  raises is the loader's result, and every path that is not a readable workbook (it does
  not exist, cannot be read, or is not a spreadsheet) raises one. The loader has a single
  call and no handler, so there is no second attempt and no substitute result.
\<close>

theorem loader_fails_fast:
  "(open_workbook fs file_path = Inl e \<longrightarrow>
      read_all_excel_sheets default_na str_of fs file_path = Inl e) \<and>
   ((\<forall>wb. fs file_path \<noteq> Workbook wb) \<longrightarrow>
      (\<exists>e'. open_workbook fs file_path = Inl e' \<and>
            read_all_excel_sheets default_na str_of fs file_path = Inl e'))"
  by (cases "fs file_path")
     (simp_all add: read_all_excel_sheets_def read_excel_all_def open_workbook_def)

theorem loader_fails_fast_witness:
  "open_workbook no_files ''missing.xlsx'' =
     Inl (FileNotFoundError (''[Errno 2] No such file or directory: '' @ quoted ''missing.xlsx'')) \<and>
   (\<forall>wb. no_files ''missing.xlsx'' \<noteq> Workbook wb) \<and>
   read_all_excel_sheets [] example_str no_files ''missing.xlsx'' =
     Inl (FileNotFoundError (''[Errno 2] No such file or directory: '' @ quoted ''missing.xlsx''))"
proof -
  have h: "open_workbook no_files ''missing.xlsx'' =
     Inl (FileNotFoundError (''[Errno 2] No such file or directory: '' @ quoted ''missing.xlsx''))"
    by (simp add: open_workbook_def no_files_def)
  have n: "\<forall>wb. no_files ''missing.xlsx'' \<noteq> Workbook wb"
    by (simp add: no_files_def)
  from loader_fails_fast [of no_files "''missing.xlsx''" _ "[]" example_str] h n
  show ?thesis by simp
qed

text \<open>
  Claim C5. For a workbook that opens, the loader returns a dict whose keys are exactly the
  sheet names of the workbook, each once. The sheet names of a workbook are pairwise
  different; then the dict has as many entries as the workbook has sheets, in workbook
  order, and under each name the table parsed from that sheet.
\<close>

theorem loader_keys:
  assumes "fs file_path = Workbook wb"
  shows "\<exists>d. read_all_excel_sheets default_na str_of fs file_path = Inr d \<and>
             set (keys d) = fst ` set wb \<and> distinct (keys d) \<and>
             (distinct (map fst wb) \<longrightarrow>
                length d = length wb \<and> keys d = map fst wb \<and>
                (\<forall>(name, sh) \<in> set wb.
                   map_of d name = Some (parse_sheet_str (['''', ''NA''] @ default_na) str_of sh)))"
proof -
  let ?na = "['''', ''NA''] @ default_na"
  let ?d = "read_sheets ?na str_of wb []"
  have r: "read_all_excel_sheets default_na str_of fs file_path = Inr ?d"
    using assms by (simp add: read_all_excel_sheets_def read_excel_all_def open_workbook_def)
  have s: "set (keys ?d) = fst ` set wb"
    by (simp add: set_keys_read_sheets keys_Nil)
  have d: "distinct (keys ?d)"
    by (rule distinct_keys_read_sheets) (simp add: keys_Nil)
  have n: "length ?d = length wb \<and> keys ?d = map fst wb \<and>
           (\<forall>(name, sh) \<in> set wb. map_of ?d name = Some (parse_sheet_str ?na str_of sh))"
    if dis: "distinct (map fst wb)"
  proof -
    have k: "keys ?d = map fst wb"
      using keys_read_sheets_distinct [OF dis, of "[]" ?na str_of] by (simp add: keys_Nil)
    have "length (keys ?d) = length wb" by (simp only: k length_map)
    then have l: "length ?d = length wb" by (simp only: length_keys)
    have m: "map_of ?d name = Some (parse_sheet_str ?na str_of sh)"
      if "(name, sh) \<in> set wb" for name sh
    proof -
      from that dis have "map_of wb name = Some sh" by simp
      then show ?thesis by (simp add: map_of_read_sheets [OF dis])
    qed
    from k l m show ?thesis by blast
  qed
  from r s d n show ?thesis by blast
qed

theorem loader_keys_witness:
  "book_fs ''book.xlsx'' = Workbook summary_detail \<and> distinct (map fst summary_detail) \<and>
   (\<exists>d. read_all_excel_sheets [] example_str book_fs ''book.xlsx'' = Inr d \<and>
        set (keys d) = {''Summary'', ''Detail''} \<and> length d = 2)"
proof -
  have h: "book_fs ''book.xlsx'' = Workbook summary_detail" by (simp add: book_fs_def)
  have dis: "distinct (map fst summary_detail)" by (simp add: summary_detail_def)
  have f: "fst ` set summary_detail = {''Summary'', ''Detail''}" by (simp add: summary_detail_def)
  have l: "length summary_detail = 2" by (simp add: summary_detail_def)
  from loader_keys [of book_fs "''book.xlsx''" summary_detail "[]" example_str, OF h] obtain d where
    d: "read_all_excel_sheets [] example_str book_fs ''book.xlsx'' = Inr d"
      "set (keys d) = fst ` set summary_detail"
      "distinct (map fst summary_detail) \<longrightarrow> length d = length summary_detail"
    by blast
  from d(2) f have "set (keys d) = {''Summary'', ''Detail''}" by (rule trans)
  moreover from d(3) dis l have "length d = 2" by simp
  ultimately show ?thesis using d(1) h dis by blast
qed

text \<open>
  Claim C4, as the code has it. Every cell of every table the loader returns is a string or
  the missing marker \<open>nan\<close>, which is a float and not a string. The table of a sheet holds,
  cell by cell, the coerced content of that sheet: a cell is \<open>nan\<close> exactly when the source
  cell is missing or holds one of the missing-value texts, among them the empty string (an
  empty cell) and \<open>NA\<close>; every other cell, whatever its original type, is a string, and a
  text cell keeps its text.
\<close>

theorem loader_cells_str_or_nan:
  assumes "read_all_excel_sheets default_na str_of fs file_path = Inr d"
    and "(name, t) \<in> set d"
  shows "\<exists>wb sh na. fs file_path = Workbook wb \<and> (name, sh) \<in> set wb \<and>
           na = ['''', ''NA''] @ default_na \<and>
           rows t = map (map (coerce_cell na str_of)) (body sh) \<and>
           (\<forall>r \<in> set (rows t). \<forall>c \<in> set r. c = NaN \<or> is_str c) \<and>
           (\<forall>c. (coerce_cell na str_of c = NaN) = (c = NaN \<or> (\<exists>s. c = VStr s \<and> s \<in> set na))) \<and>
           (\<forall>s. s \<notin> set na \<longrightarrow> coerce_cell na str_of (VStr s) = VStr s) \<and>
           coerce_cell na str_of (VStr '''') = NaN \<and> coerce_cell na str_of (VStr ''NA'') = NaN"
proof -
  let ?na = "['''', ''NA''] @ default_na"
  from assms(1) obtain wb where wb: "fs file_path = Workbook wb"
    and d: "d = read_sheets ?na str_of wb []"
    by (cases "fs file_path")
       (auto simp: read_all_excel_sheets_def read_excel_all_def open_workbook_def)
  from values_read_sheets [of name t ?na str_of wb "[]"] assms(2) d
  obtain sh where sh: "(name, sh) \<in> set wb" and t: "t = parse_sheet_str ?na str_of sh"
    by auto
  have co: "coerce_cell ?na str_of c = NaN \<or> is_str (coerce_cell ?na str_of c)" for c
    by (cases c) (simp_all add: coerce_cell_def)
  have r: "rows t = map (map (coerce_cell ?na str_of)) (body sh)"
    by (simp add: t parse_sheet_str_def)
  have c1: "\<forall>r \<in> set (rows t). \<forall>c \<in> set r. c = NaN \<or> is_str c"
    using co by (auto simp: r)
  have c2: "(coerce_cell ?na str_of c = NaN) = (c = NaN \<or> (\<exists>s. c = VStr s \<and> s \<in> set ?na))" for c
    by (cases c) (simp_all add: coerce_cell_def)
  have c3: "s \<notin> set ?na \<longrightarrow> coerce_cell ?na str_of (VStr s) = VStr s" for s
    by (simp add: coerce_cell_def)
  have c4: "coerce_cell ?na str_of (VStr '''') = NaN \<and> coerce_cell ?na str_of (VStr ''NA'') = NaN"
    by (simp add: coerce_cell_def)
  from wb sh r c1 c2 c3 c4 show ?thesis by blast
qed

theorem loader_cells_str_or_nan_witness:
  "read_all_excel_sheets [] example_str codes_fs ''codes.xlsx'' =
     Inr [(''Codes'', \<lparr> columns = [(''code'', Object)],
                       rows = [[VStr ''007''], [NaN], [NaN], [VStr ''5'']] \<rparr>)] \<and>
   list_all (list_all (\<lambda>c. c = NaN \<or> is_str c)) [[VStr ''007''], [NaN], [NaN], [VStr ''5'']]"
proof -
  let ?t = "\<lparr> columns = [(''code'', Object)],
             rows = [[VStr ''007''], [NaN], [NaN], [VStr ''5'']] \<rparr>"
  have h: "read_all_excel_sheets [] example_str codes_fs ''codes.xlsx'' = Inr [(''Codes'', ?t)]"
    by (simp add: read_all_excel_sheets_def read_excel_all_def open_workbook_def codes_fs_def
        codes_sheet_def parse_sheet_str_def coerce_cell_def example_str_def)
  have m: "(''Codes'', ?t) \<in> set [(''Codes'', ?t)]"
    by simp
  from loader_cells_str_or_nan [OF h m]
  have "\<forall>r \<in> set (rows ?t). \<forall>c \<in> set r. c = NaN \<or> is_str c"
    by blast
  then have "list_all (list_all (\<lambda>c. c = NaN \<or> is_str c)) (rows ?t)"
    unfolding list_all_iff by blast
  then have "list_all (list_all (\<lambda>c. c = NaN \<or> is_str c)) [[VStr ''007''], [NaN], [NaN], [VStr ''5'']]"
    by (simp only: dataframe.simps)
  with h show ?thesis by (rule conjI)
qed

text \<open>
  The claim as the specification states it, every cell a string, missing cells included,
  fails on \<open>codes.xlsx\<close>: the empty cell and the \<open>NA\<close> cell are loaded as \<open>nan\<close>.
\<close>

theorem loader_all_str_counterexample:
  "read_all_excel_sheets [] example_str codes_fs ''codes.xlsx'' =
     Inr [(''Codes'', \<lparr> columns = [(''code'', Object)],
                       rows = [[VStr ''007''], [NaN], [NaN], [VStr ''5'']] \<rparr>)] \<and>
   \<not> list_all (list_all is_str) [[VStr ''007''], [NaN], [NaN], [VStr ''5'']]"
  by (simp add: read_all_excel_sheets_def read_excel_all_def open_workbook_def codes_fs_def
      codes_sheet_def parse_sheet_str_def coerce_cell_def example_str_def)

section \<open>The profiler: statistics\<close>

text \<open>
  Claim C10. The \<open>Duplicate Rows\<close> entry of the metadata is the number of rows that equal an
  earlier row in every column: a row is flagged exactly when some earlier row is equal to
  it, so each group of \<open>k\<close> equal rows adds \<open>k - 1\<close>, and a sheet without repeated rows
  reports 0. Rows are compared as Python compares them (\<open>py_key\<close>). A loaded sheet with
  rows has columns.
\<close>

theorem duplicate_rows_count:
  assumes "columns df \<noteq> []"
  shows "md_duplicate_rows (metadata_of ev sheet_name df) =
           (\<Sum>r \<in> set (map (map py_key) (rows df)). count_list (map (map py_key) (rows df)) r - 1) \<and>
         (\<forall>i < shape0 df.
            duplicated df ! i =
              (\<exists>j < i. map py_key (rows df ! j) = map py_key (rows df ! i))) \<and>
         (distinct (map (map py_key) (rows df)) \<longrightarrow>
            md_duplicate_rows (metadata_of ev sheet_name df) = 0)"
proof -
  let ?K = "map (map py_key) (rows df)"
  have d: "duplicated df = dup_flags [] ?K"
    using assms by (rule duplicate_rows_eq)
  have md: "md_duplicate_rows (metadata_of ev sheet_name df) = sum_bool (dup_flags [] ?K)"
    by (simp add: metadata_of_def d)
  have a: "sum_bool (dup_flags [] ?K) + card (set ?K) = length ?K"
    by (rule sum_bool_dup_flags_fresh)
  have b: "(\<Sum>r \<in> set ?K. count_list ?K r - 1) + card (set ?K) = length ?K"
    by (rule sum_multiplicity_less_one)
  from a b have c1: "sum_bool (dup_flags [] ?K) = (\<Sum>r \<in> set ?K. count_list ?K r - 1)"
    by linarith
  have c2: "duplicated df ! i = (\<exists>j < i. map py_key (rows df ! j) = map py_key (rows df ! i))"
    if i: "i < shape0 df" for i
  proof -
    from i have il: "i < length ?K" by (simp add: shape0_def)
    have "duplicated df ! i = (?K ! i \<in> set (take i ?K))"
      using dup_flags_nth [OF il, of "[]"] by (simp add: d)
    also have "\<dots> = (\<exists>j < i. ?K ! j = ?K ! i)"
      using il by (auto simp: in_set_conv_nth)
    also have "\<dots> = (\<exists>j < i. map py_key (rows df ! j) = map py_key (rows df ! i))"
      using il by auto
    finally show ?thesis .
  qed
  have c3: "sum_bool (dup_flags [] ?K) = 0" if "distinct ?K"
  proof -
    from that have "card (set ?K) = length ?K" by (rule distinct_card)
    with a show ?thesis by linarith
  qed
  from md c1 c2 c3 show ?thesis by simp
qed

theorem duplicate_rows_count_witness:
  "columns repeats_df \<noteq> [] \<and>
   md_duplicate_rows (metadata_of (orders_env repeats_df) ''Q1'' repeats_df) = 3 \<and>
   duplicated repeats_df = [False, True, False, True, True]"
proof -
  have h: "columns repeats_df \<noteq> []" by (simp add: repeats_df_def)
  let ?K = "[[VStr ''a'', VNum 1], [VStr ''a'', VNum 1], [VStr ''b'', NaN],
             [VStr ''a'', VNum 1], [VStr ''b'', NaN]]"
  have k: "map (map py_key) (rows repeats_df) = ?K" by (simp add: repeats_df_def)
  have s: "set ?K = {[VStr ''a'', VNum 1], [VStr ''b'', NaN]}" by auto
  have "(\<Sum>r \<in> set ?K. count_list ?K r - 1) = 3"
    by (simp only: s) simp
  with duplicate_rows_count [OF h, of "orders_env repeats_df" "''Q1''"] k
  have "md_duplicate_rows (metadata_of (orders_env repeats_df) ''Q1'' repeats_df) = 3"
    by simp
  moreover have "duplicated repeats_df = [False, True, False, True, True]"
    by (simp add: duplicated_def df_empty_def shape0_def shape1_def repeats_df_def)
  ultimately show ?thesis using h by simp
qed
text \<open>
  Claim C6, as the code has it. In the data-quality frame, for the column at every
  position, the missing count plus the count of non-missing values is the row count of
  the sheet. For a sheet without rows nothing is raised: the percentage is \<open>nan\<close>. For a
  sheet with rows the percentage is what numpy's rounding makes of
  \<open>missing / rows * 100\<close> in float64: the float nearest to \<open>k / 10\<close> for a whole number
  \<open>k\<close> from 0 to 1000 that is within \<open>0.05 + 10^-12\<close> of the exact percentage. Where the
  exact percentage is half-way between two decimals, up to rounding error, it need not be
  the value of Python's \<open>round\<close>.
\<close>

theorem data_quality_counts:
  assumes "j < shape1 df"
  shows "dq_missing_values (data_quality df ! j) + count_notnull (snd (snd (df_items df ! j))) =
           shape0 df \<and>
         (shape0 df = 0 \<longrightarrow> dq_pct_missing (data_quality df ! j) = None) \<and>
         (0 < shape0 df \<longrightarrow>
            dq_pct_missing (data_quality df ! j) =
              Some (np_round 1
                 (fl (fl (of_nat (dq_missing_values (data_quality df ! j)) / of_nat (shape0 df))
                      * 100))) \<and>
            (\<exists>k. 0 \<le> k \<and> k \<le> 1000 \<and>
               dq_pct_missing (data_quality df ! j) = Some (fl (of_int k / 10)) \<and>
               \<bar>of_int k / 10 -
                  (of_nat (dq_missing_values (data_quality df ! j)) / of_nat (shape0 df) * 100 :: rat)\<bar>
                 \<le> 1 / 20 + 1 / 10 ^ 12))"
proof -
  obtain col dt vs where it: "df_items df ! j = (col, dt, vs)"
    by (cases "df_items df ! j")
  from assms have jl: "j < length (df_items df)" by (simp add: length_df_items)
  then have "(col, dt, vs) \<in> set (df_items df)" using it by (metis nth_mem)
  then have len: "length vs = shape0 df" by (rule df_items_length_vals)
  have row: "data_quality df ! j =
      \<lparr> dq_column = col, dq_data_type = dt, dq_missing_values = sum_bool (isnull vs),
        dq_pct_missing = pct_missing vs, dq_unique_values = nunique vs \<rparr>"
    using jl it by (simp add: data_quality_def)
  have mv: "dq_missing_values (data_quality df ! j) = sum_bool (isnull vs)"
    by (simp add: row)
  have pv: "dq_pct_missing (data_quality df ! j) = pct_missing vs"
    by (simp add: row)
  have a: "sum_bool (isnull vs) + count_notnull (snd (snd (df_items df ! j))) = shape0 df"
    using missing_plus_present [of vs] len by (simp add: it)
  have b: "pct_missing vs = None" if "shape0 df = 0"
    using that len by (simp add: pct_missing_eq)
  have c: "pct_missing vs =
             Some (np_round 1 (fl (fl (of_nat (sum_bool (isnull vs)) / of_nat (shape0 df)) * 100))) \<and>
           (\<exists>k. 0 \<le> k \<and> k \<le> 1000 \<and> pct_missing vs = Some (fl (of_int k / 10)) \<and>
              \<bar>of_int k / 10 - (of_nat (sum_bool (isnull vs)) / of_nat (shape0 df) * 100 :: rat)\<bar>
                \<le> 1 / 20 + 1 / 10 ^ 12)"
    if pos: "0 < shape0 df"
  proof -
    from pos len have ne: "vs \<noteq> []" by auto
    have p: "pct_missing vs =
         Some (np_round 1 (fl (fl (of_nat (sum_bool (isnull vs)) / of_nat (shape0 df)) * 100)))"
      using ne len by (simp add: pct_missing_eq)
    have "sum_bool (isnull vs) \<le> shape0 df"
      using sum_bool_le_length [of "isnull vs"] len by (simp add: isnull_def)
    from np_round_share [OF this pos] obtain k where
      k: "0 \<le> k" "k \<le> 1000"
        "np_round 1 (fl (fl (of_nat (sum_bool (isnull vs)) / of_nat (shape0 df)) * 100)) =
           fl (of_int k / 10)"
        "\<bar>of_int k / 10 - (of_nat (sum_bool (isnull vs)) / of_nat (shape0 df) * 100 :: rat)\<bar>
           \<le> 1 / 20 + 1 / 10 ^ 12"
      by blast
    from p k(3) have "pct_missing vs = Some (fl (of_int k / 10))" by simp
    with p k(1,2,4) show ?thesis by blast
  qed
  from a b c show ?thesis by (simp only: mv pv) blast
qed

theorem data_quality_counts_witness:
  "(0::nat) < shape1 sparse_df \<and> shape0 sparse_df = 3 \<and>
   dq_missing_values (data_quality sparse_df ! 0) = 2 \<and>
   count_notnull (snd (snd (df_items sparse_df ! 0))) = 1 \<and>
   dq_pct_missing (data_quality sparse_df ! 0) = Some (fl (667 / 10)) \<and>
   (0::nat) < shape1 header_only_df \<and> shape0 header_only_df = 0 \<and>
   dq_pct_missing (data_quality header_only_df ! 0) = None"
proof -
  have h1: "(0::nat) < shape1 sparse_df" by (simp add: shape1_def sparse_df_def)
  have h2: "(0::nat) < shape1 header_only_df" by (simp add: shape1_def header_only_df_def)
  have s1: "shape0 sparse_df = 3" by (simp add: shape0_def sparse_df_def)
  have s2: "shape0 header_only_df = 0" by (simp add: shape0_def header_only_df_def)
  have m: "dq_missing_values (data_quality sparse_df ! 0) = 2"
    by (simp add: data_quality_def df_items_def sparse_df_def sum_bool_def isnull_def)
  have c: "count_notnull (snd (snd (df_items sparse_df ! 0))) = 1"
    by (simp add: df_items_def sparse_df_def count_notnull_def dropna_def)
  have r: "np_round 1 (fl (fl (of_nat 2 / of_nat 3) * 100)) = fl (667 / 10)"
    by code_simp
  from data_quality_counts [OF h1]
  have "dq_pct_missing (data_quality sparse_df ! 0) =
          Some (np_round 1 (fl (fl (of_nat 2 / of_nat 3) * 100)))"
    by (simp only: s1 m)
  then have p1: "dq_pct_missing (data_quality sparse_df ! 0) = Some (fl (667 / 10))"
    by (simp only: r)
  from data_quality_counts [OF h2] s2
  have p2: "dq_pct_missing (data_quality header_only_df ! 0) = None" by blast
  from h1 h2 s1 s2 m c p1 p2 show ?thesis by (intro conjI)
qed

text \<open>
  The equation as the specification states it fails on a sheet of 2000 rows with one
  missing value: \<open>1 / 2000 * 100\<close> is the float next to 0.05, which numpy's rounding takes
  to 0.0 and Python's \<open>round\<close> to 0.1. Rounding the exact percentage fails too: with 23
  missing values in 80 rows it is 28.75, which rounds to 28.8, and the code reports 28.7.
\<close>

theorem pct_missing_round_counterexample:
  "shape0 one_in_2000_df = 2000 \<and>
   dq_missing_values (data_quality one_in_2000_df ! 0) = 1 \<and>
   dq_pct_missing (data_quality one_in_2000_df ! 0) = Some 0 \<and>
   py_round 1 (fl (fl (1 / 2000) * 100)) = fl (1 / 10) \<and>
   fl (1 / 10) \<noteq> 0 \<and>
   shape0 gaps_df = 80 \<and>
   dq_missing_values (data_quality gaps_df ! 0) = 23 \<and>
   dq_pct_missing (data_quality gaps_df ! 0) = Some (fl (287 / 10)) \<and>
   round_dec 1 (23 / 80 * 100) = 288 / 10 \<and>
   fl (287 / 10) \<noteq> fl (288 / 10)"
proof -
  have i1: "df_items one_in_2000_df = [(''amount'', Float64, NaN # replicate 1999 (VNum 1))]"
    by (simp add: df_items_def one_in_2000_df_def)
  have i2: "df_items gaps_df = [(''amount'', Float64, replicate 23 NaN @ replicate 57 (VNum 1))]"
    by (simp add: df_items_def gaps_df_def)
  have s1: "shape0 one_in_2000_df = 2000" by (simp add: shape0_def one_in_2000_df_def)
  have s2: "shape0 gaps_df = 80" by (simp add: shape0_def gaps_df_def)
  have m1: "sum_bool (isnull (NaN # replicate 1999 (VNum 1))) = 1"
    by (simp add: sum_bool_def isnull_def)
  have m2: "sum_bool (isnull (replicate 23 NaN @ replicate 57 (VNum 1))) = 23"
    by (simp add: sum_bool_def isnull_def)
  have r1: "np_round (Suc 0) (fl (fl (1 / 2000) * 100)) = 0" by code_simp
  have r2: "np_round (Suc 0) (fl (fl (23 / 80) * 100)) = fl (287 / 10)" by code_simp
  have p1: "pct_missing (NaN # replicate 1999 (VNum 1)) = Some 0"
    by (simp only: pct_missing_eq m1) (simp add: r1)
  have p2: "pct_missing (replicate 23 NaN @ replicate 57 (VNum 1)) = Some (fl (287 / 10))"
    by (simp only: pct_missing_eq m2) (simp add: r2)
  have q1: "py_round 1 (fl (fl (1 / 2000) * 100)) = fl (1 / 10)" by code_simp
  have q2: "fl (1 / 10) \<noteq> 0" by code_simp
  have q3: "round_dec 1 (23 / 80 * 100) = 288 / 10" by code_simp
  have q4: "fl (287 / 10) \<noteq> fl (288 / 10)" by code_simp
  have d1: "dq_missing_values (data_quality one_in_2000_df ! 0) = 1"
    by (simp add: data_quality_def i1 m1)
  have d2: "dq_pct_missing (data_quality one_in_2000_df ! 0) = Some 0"
    by (simp add: data_quality_def i1 p1)
  have d3: "dq_missing_values (data_quality gaps_df ! 0) = 23"
    by (simp add: data_quality_def i2 m2)
  have d4: "dq_pct_missing (data_quality gaps_df ! 0) = Some (fl (287 / 10))"
    by (simp add: data_quality_def i2 p2)
  from s1 d1 d2 q1 q2 s2 d3 d4 q3 q4 show ?thesis by (intro conjI)
qed

text \<open>
  Claim C8, as the code has it. The data-quality frame has one row per column of the
  sheet, labelled with the column names in the sheet's order. For a sheet with at least
  one row every percentage is a number in \<open>[0, 100]\<close>; for a sheet without rows every
  percentage is \<open>nan\<close>, which lies in no interval.
\<close>

theorem data_quality_rows_range:
  "map dq_column (data_quality df) = map fst (columns df) \<and>
   length (data_quality df) = shape1 df \<and>
   (\<forall>r \<in> set (data_quality df).
      case dq_pct_missing r of
        None \<Rightarrow> shape0 df = 0
      | Some p \<Rightarrow> 0 < shape0 df \<and> 0 \<le> p \<and> p \<le> 100)"
proof -
  have "map dq_column (data_quality df) = map fst (df_items df)"
    by (simp add: data_quality_def comp_def case_prod_beta)
  then have a: "map dq_column (data_quality df) = map fst (columns df)"
    by (simp only: df_items_labels)
  have b: "length (data_quality df) = shape1 df"
    by (simp add: data_quality_def length_df_items)
  have c: "case dq_pct_missing r of None \<Rightarrow> shape0 df = 0
           | Some p \<Rightarrow> 0 < shape0 df \<and> 0 \<le> p \<and> p \<le> 100"
    if "r \<in> set (data_quality df)" for r
  proof -
    from that obtain col dt vs where it: "(col, dt, vs) \<in> set (df_items df)"
      and r: "dq_pct_missing r = pct_missing vs"
      by (auto simp: data_quality_def)
    from it have len: "length vs = shape0 df" by (rule df_items_length_vals)
    show ?thesis
    proof (cases "vs = []")
      case True
      with len show ?thesis by (simp add: r pct_missing_eq)
    next
      case False
      with len have pos: "0 < shape0 df" by (metis length_greater_0_conv)
      have "sum_bool (isnull vs) \<le> length vs"
        using sum_bool_le_length [of "isnull vs"] by (simp add: isnull_def)
      moreover from False have "0 < length vs" by simp
      ultimately obtain k where
        "np_round 1 (fl (fl (of_nat (sum_bool (isnull vs)) / of_nat (length vs)) * 100)) =
           fl (of_int k / 10)"
        "0 \<le> fl (of_int k / 10)" "fl (of_int k / 10) \<le> 100"
        using np_round_share [of "sum_bool (isnull vs)" "length vs"] by blast
      then have "0 \<le> np_round 1 (fl (fl (of_nat (sum_bool (isnull vs)) / of_nat (length vs)) * 100)) \<and>
                 np_round 1 (fl (fl (of_nat (sum_bool (isnull vs)) / of_nat (length vs)) * 100)) \<le> 100"
        by simp
      with False pos show ?thesis by (simp add: r pct_missing_eq)
    qed
  qed
  from a b c show ?thesis by blast
qed

theorem data_quality_rows_range_witness:
  "map dq_column (data_quality sparse_df) = [''name'', ''qty''] \<and>
   length (data_quality sparse_df) = 2 \<and>
   map dq_pct_missing (data_quality sparse_df) = [Some (fl (667 / 10)), Some (fl (333 / 10))] \<and>
   list_all pct_in_range (map dq_pct_missing (data_quality sparse_df))"
proof -
  have c: "map fst (columns sparse_df) = [''name'', ''qty'']" by (simp add: sparse_df_def)
  have s: "shape1 sparse_df = 2" by (simp add: shape1_def sparse_df_def)
  have i: "df_items sparse_df =
      [(''name'', Object, [VStr ''a'', NaN, NaN]), (''qty'', Float64, [VNum 1, NaN, VNum 2])]"
    by code_simp
  have r1: "np_round (Suc 0) (fl (fl (2 / 3) * 100)) = fl (667 / 10)" by code_simp
  have r2: "np_round (Suc 0) (fl (fl (1 / 3) * 100)) = fl (333 / 10)" by code_simp
  have p1: "pct_missing [VStr ''a'', NaN, NaN] = Some (fl (667 / 10))"
    by (simp add: pct_missing_eq sum_bool_def isnull_def r1)
  have p2: "pct_missing [VNum 1, NaN, VNum 2] = Some (fl (333 / 10))"
    by (simp add: pct_missing_eq sum_bool_def isnull_def r2)
  have p: "map dq_pct_missing (data_quality sparse_df) = [Some (fl (667 / 10)), Some (fl (333 / 10))]"
    by (simp add: data_quality_def i p1 p2)
  have q: "list_all pct_in_range [Some (fl (667 / 10)), Some (fl (333 / 10))]"
    by code_simp
  from data_quality_rows_range [of sparse_df] c s p q show ?thesis by simp
qed

text \<open>
  The range as the specification states it, every percentage in \<open>[0, 100]\<close>, fails on the
  sheet that has a header row and no data rows: its one percentage is \<open>nan\<close>.
\<close>

theorem data_quality_range_counterexample:
  "shape1 header_only_df = 1 \<and>
   map dq_pct_missing (data_quality header_only_df) = [None] \<and>
   \<not> list_all pct_in_range (map dq_pct_missing (data_quality header_only_df))"
  by (simp add: shape1_def data_quality_def df_items_def header_only_df_def pct_missing_def
      mean_bool_def isnull_def pct_in_range_def)

section \<open>The profiler: sample values\<close>

text \<open>
  Claim C2, as the code has it. For every column of a loaded sheet, a draw that succeeds
  yields \<open>min(3, rows)\<close> values, where \<open>rows\<close> is the row count of the sheet: at most 3,
  and the same number for every column. For a column that is not text-typed the draw
  always succeeds and takes its values from all values of the column, missing ones
  included: it is \<open>sample\<close> on the whole column, and whichever position the random source
  draws first, the value at that position, missing or not, is the first sample value. For
  a text-typed column with at least \<open>min(3, rows)\<close> non-missing values the draw succeeds,
  yields \<open>min(3, non-missing)\<close> values and takes them from the non-missing values: it is
  \<open>sample\<close> on the column without its missing values, each of them can be drawn, and no
  sample value is missing. Nothing is said here about a text-typed column with fewer
  non-missing values.
\<close>

theorem sample_column_count:
  assumes "(col, dt, vs) \<in> set (df_items df)"
  shows "(\<forall>s g'. sample_column g dt vs = Inr (s, g') \<longrightarrow>
            length s = min 3 (shape0 df) \<and> length s \<le> 3) \<and>
         (dt \<noteq> Object \<longrightarrow>
            sample_column g dt vs = Inr (draw g (min 3 (shape0 df)) vs) \<and>
            (\<exists>s g'. sample_column g dt vs = Inr (s, g') \<and> set s \<subseteq> set vs) \<and>
            (\<forall>i < length vs. \<exists>s g'. sample_column (i # g) dt vs = Inr (vs ! i # s, g'))) \<and>
         (dt = Object \<and> min 3 (shape0 df) \<le> count_notnull vs \<longrightarrow>
            sample_column g dt vs = Inr (draw g (min 3 (shape0 df)) (dropna vs)) \<and>
            (\<exists>s g'. sample_column g dt vs = Inr (s, g') \<and>
                    length s = min 3 (count_notnull vs) \<and> set s \<subseteq> set (dropna vs) \<and>
                    NaN \<notin> set s) \<and>
            (\<forall>i < count_notnull vs.
               \<exists>s g'. sample_column (i # g) dt vs = Inr (dropna vs ! i # s, g')))"
proof -
  from assms have len: "length vs = shape0 df" by (rule df_items_length_vals)
  have a: "length s = min 3 (shape0 df) \<and> length s \<le> 3"
    if "sample_column g dt vs = Inr (s, g')" for s g'
    using sample_column_length [OF that] len by simp
  have b1: "sample_column h dt vs = Inr (draw h (min 3 (shape0 df)) vs)" if "dt \<noteq> Object" for h
    using sample_column_other [OF that, of h vs] len by simp
  have b2: "\<exists>s g'. sample_column g dt vs = Inr (s, g') \<and> set s \<subseteq> set vs" if t: "dt \<noteq> Object"
  proof -
    obtain s g' where d: "draw g (min 3 (shape0 df)) vs = (s, g')"
      by (cases "draw g (min 3 (shape0 df)) vs")
    then have "fst (draw g (min 3 (shape0 df)) vs) = s" by simp
    with set_draw [of g "min 3 (shape0 df)" vs] have "set s \<subseteq> set vs" by simp
    with b1 [OF t, of g] d show ?thesis by auto
  qed
  have b3: "\<exists>s g'. sample_column (i # g) dt vs = Inr (vs ! i # s, g')"
    if t: "dt \<noteq> Object" and i: "i < length vs" for i
  proof -
    from i len have "0 < shape0 df" by linarith
    then have "0 < min 3 (shape0 df)" by simp
    from draw_first [OF i this, of g] obtain ys g' where
      "draw (i # g) (min 3 (shape0 df)) vs = (vs ! i # ys, g')" by blast
    with b1 [OF t, of "i # g"] show ?thesis by simp
  qed
  have c1: "sample_column h dt vs = Inr (draw h (min 3 (shape0 df)) (dropna vs))"
    if "dt = Object" and "min 3 (shape0 df) \<le> count_notnull vs" for h
    using that sample_column_text [of vs h] len by simp
  have c2: "\<exists>s g'. sample_column g dt vs = Inr (s, g') \<and>
             length s = min 3 (count_notnull vs) \<and> set s \<subseteq> set (dropna vs) \<and> NaN \<notin> set s"
    if t: "dt = Object" and le: "min 3 (shape0 df) \<le> count_notnull vs"
  proof -
    obtain s g' where d: "draw g (min 3 (shape0 df)) (dropna vs) = (s, g')"
      by (cases "draw g (min 3 (shape0 df)) (dropna vs)")
    then have f: "fst (draw g (min 3 (shape0 df)) (dropna vs)) = s" by simp
    with set_draw [of g "min 3 (shape0 df)" "dropna vs"] have sub: "set s \<subseteq> set (dropna vs)"
      by simp
    have r: "sample_column g dt vs = Inr (s, g')"
      using c1 [OF t le, of g] d by simp
    from sample_column_length [OF r] have "length s = min 3 (length vs)" .
    with le len count_notnull_le [of vs] have l: "length s = min 3 (count_notnull vs)"
      by linarith
    have "NaN \<notin> set (dropna vs)" by (simp add: dropna_def)
    with sub have "NaN \<notin> set s" by blast
    with r l sub show ?thesis by blast
  qed
  have c3: "\<exists>s g'. sample_column (i # g) dt vs = Inr (dropna vs ! i # s, g')"
    if t: "dt = Object" and le: "min 3 (shape0 df) \<le> count_notnull vs"
      and i: "i < count_notnull vs" for i
  proof -
    from i have i': "i < length (dropna vs)" by (simp add: count_notnull_def)
    from i count_notnull_le [of vs] len have "0 < shape0 df" by linarith
    then have "0 < min 3 (shape0 df)" by simp
    from draw_first [OF i' this, of g] obtain ys g' where
      "draw (i # g) (min 3 (shape0 df)) (dropna vs) = (dropna vs ! i # ys, g')" by blast
    with c1 [OF t le, of "i # g"] show ?thesis by simp
  qed
  from a b1 [of g] b2 b3 c1 [of g] c2 c3 show ?thesis by blast
qed

theorem sample_column_count_witness:
  "(''qty'', Float64, [VNum 1, NaN, VNum 2]) \<in> set (df_items sparse_df) \<and>
   shape0 sparse_df = 3 \<and>
   sample_column [1] Float64 [VNum 1, NaN, VNum 2] = Inr ([NaN, VNum 1, VNum 2], []) \<and>
   (\<exists>s g'. sample_column [1] Float64 [VNum 1, NaN, VNum 2] = Inr (NaN # s, g')) \<and>
   length [NaN, VNum 1, VNum 2] = min 3 (shape0 sparse_df) \<and>
   (''ok'', Object, [VBool True, VNum 1, NaN, VBool True, NaN]) \<in> set (df_items repeats_df) \<and>
   min 3 (shape0 repeats_df) \<le> count_notnull [VBool True, VNum 1, NaN, VBool True, NaN] \<and>
   sample_column [] Object [VBool True, VNum 1, NaN, VBool True, NaN] =
     Inr ([VBool True, VNum 1, VBool True], []) \<and>
   length [VBool True, VNum 1, VBool True] = min 3 (shape0 repeats_df)"
proof -
  have m1: "(''qty'', Float64, [VNum 1, NaN, VNum 2]) \<in> set (df_items sparse_df)"
    by code_simp
  have m2: "(''ok'', Object, [VBool True, VNum 1, NaN, VBool True, NaN]) \<in> set (df_items repeats_df)"
    by code_simp
  have s1: "shape0 sparse_df = 3" by (simp add: shape0_def sparse_df_def)
  have r1: "sample_column [1] Float64 [VNum 1, NaN, VNum 2] = Inr ([NaN, VNum 1, VNum 2], [])"
    by code_simp
  have r2: "sample_column [] Object [VBool True, VNum 1, NaN, VBool True, NaN] =
     Inr ([VBool True, VNum 1, VBool True], [])"
    by code_simp
  have c2: "min 3 (shape0 repeats_df) \<le> count_notnull [VBool True, VNum 1, NaN, VBool True, NaN]"
    by code_simp
  note t1 = sample_column_count [OF m1]
  from t1 [of "[1]"] r1
  have l1: "length [NaN, VNum 1, VNum 2] = min 3 (shape0 sparse_df)" by blast
  have "\<forall>i < length [VNum 1, NaN, VNum 2].
          \<exists>s g'. sample_column [i] Float64 [VNum 1, NaN, VNum 2] =
                   Inr ([VNum 1, NaN, VNum 2] ! i # s, g')"
    using t1 [of "[]"] by blast
  moreover have "(1::nat) < length [VNum 1, NaN, VNum 2]" by simp
  ultimately have "\<exists>s g'. sample_column [1] Float64 [VNum 1, NaN, VNum 2] =
                   Inr ([VNum 1, NaN, VNum 2] ! 1 # s, g')"
    by blast
  moreover have "[VNum 1, NaN, VNum 2] ! 1 = NaN" by simp
  ultimately have e1: "\<exists>s g'. sample_column [1] Float64 [VNum 1, NaN, VNum 2] = Inr (NaN # s, g')"
    by (simp only:)
  from sample_column_count [OF m2, of "[]"] r2
  have l2: "length [VBool True, VNum 1, VBool True] = min 3 (shape0 repeats_df)" by blast
  from m1 s1 r1 e1 l1 m2 c2 r2 l2 show ?thesis by (intro conjI)
qed

text \<open>
  The claim as the specification states it fails on the sheet \<open>sparse_df\<close>, which has 3
  rows. Its numeric column \<open>qty\<close> has 2 non-missing values and gets 3 sample values, one
  of them missing. Its text column \<open>name\<close> has 1 non-missing value; the draw of 3 from it
  raises \<open>ValueError\<close>.
\<close>

theorem sample_count_counterexample:
  "df_items sparse_df =
     [(''name'', Object, [VStr ''a'', NaN, NaN]), (''qty'', Float64, [VNum 1, NaN, VNum 2])] \<and>
   count_notnull [VNum 1, NaN, VNum 2] = 2 \<and>
   sample_column [] Float64 [VNum 1, NaN, VNum 2] = Inr ([VNum 1, NaN, VNum 2], []) \<and>
   count_notnull [VStr ''a'', NaN, NaN] = 1 \<and>
   sample_column [] Object [VStr ''a'', NaN, NaN] =
     Inl (ValueError (''Cannot take a larger sample than population when '' @ quoted ''replace=False''))"
  by code_simp




section \<open>The profiler: failures and the order of the output\<close>

text \<open>
  Claim C1. For every file path and sheet name \<open>df_overview\<close> returns normally with no
  result value, whatever happens inside. When loading, computing or rendering raises an
  exception \<open>e\<close>, the console shows what was printed before it and then one line, which
  names the sheet and carries the message of \<open>e\<close>, and that line is the only diagnostic
  line of the output. In particular a sheet name that the workbook does not have gives
  that one line and nothing else.
\<close>

theorem df_overview_fails_soft:
  "fst (df_overview ev file_path sheet_name) = Inr () \<and>
   (\<forall>e out. df_overview_try ev file_path sheet_name = (Inl e, out) \<longrightarrow>
      snd (df_overview ev file_path sheet_name) =
        out @ [Print (''Error processing sheet '' @ quoted sheet_name @ '': '' @ str_exn e)] \<and>
      length (filter is_diagnostic (snd (df_overview ev file_path sheet_name))) = 1) \<and>
   (\<forall>wb. files ev file_path = Workbook wb \<and> sheet_name \<notin> fst ` set wb \<longrightarrow>
      snd (df_overview ev file_path sheet_name) =
        [Print (''Error processing sheet '' @ quoted sheet_name @ '': '' @
                ''Worksheet named '' @ quoted sheet_name @ '' not found'')])"
proof -
  obtain r out where t: "df_overview_try ev file_path sheet_name = (r, out)"
    by (cases "df_overview_try ev file_path sheet_name")
  have nd: "filter is_diagnostic out = []"
    using try_prints_no_diagnostic [of ev file_path sheet_name] t by simp
  have a: "fst (df_overview ev file_path sheet_name) = Inr ()"
    by (cases r) (simp_all add: df_overview_def t)
  have b: "snd (df_overview ev file_path sheet_name) =
             out' @ [Print (''Error processing sheet '' @ quoted sheet_name @ '': '' @ str_exn e)] \<and>
           length (filter is_diagnostic (snd (df_overview ev file_path sheet_name))) = 1"
    if "df_overview_try ev file_path sheet_name = (Inl e, out')" for e out'
  proof -
    from that t have r: "r = Inl e" and o: "out' = out" by simp_all
    have s: "snd (df_overview ev file_path sheet_name) = out @ [Print (error_line sheet_name e)]"
      by (simp add: df_overview_def t r)
    have "filter is_diagnostic (out @ [Print (error_line sheet_name e)]) =
            [Print (error_line sheet_name e)]"
      by (simp add: nd error_line_is_diagnostic)
    then have "length (filter is_diagnostic (out @ [Print (error_line sheet_name e)])) = 1"
      by simp
    with s o show ?thesis by (simp add: error_line_def)
  qed
  have c: "snd (df_overview ev file_path sheet_name) =
        [Print (''Error processing sheet '' @ quoted sheet_name @ '': '' @
                ''Worksheet named '' @ quoted sheet_name @ '' not found'')]"
    if "files ev file_path = Workbook wb" and "sheet_name \<notin> fst ` set wb" for wb
  proof -
    from read_excel_sheet_absent [of "files ev" file_path wb sheet_name, OF that]
    have "df_overview_try ev file_path sheet_name =
            (Inl (ValueError (''Worksheet named '' @ quoted sheet_name @ '' not found'')), [])"
      by (simp add: df_overview_try_def)
    then show ?thesis by (simp add: df_overview_def error_line_def)
  qed
  from a b c show ?thesis by blast
qed

theorem df_overview_fails_soft_witness:
  "files (orders_env sparse_df) ''orders.xlsx'' = Workbook [(''Q1'', sparse_df)] \<and>
   ''Q2'' \<notin> fst ` set [(''Q1'', sparse_df)] \<and>
   df_overview_try (orders_env sparse_df) ''orders.xlsx'' ''Q2'' =
     (Inl (ValueError (''Worksheet named '' @ quoted ''Q2'' @ '' not found'')), []) \<and>
   df_overview (orders_env sparse_df) ''orders.xlsx'' ''Q2'' =
     (Inr (), [Print (''Error processing sheet '' @ quoted ''Q2'' @ '': '' @
                      ''Worksheet named '' @ quoted ''Q2'' @ '' not found'')]) \<and>
   length (filter is_diagnostic (snd (df_overview (orders_env sparse_df) ''orders.xlsx'' ''Q2''))) = 1"
proof -
  have h1: "files (orders_env sparse_df) ''orders.xlsx'' = Workbook [(''Q1'', sparse_df)]"
    by (simp add: orders_env_def)
  have h2: "''Q2'' \<notin> fst ` set [(''Q1'', sparse_df)]" by simp
  have h3: "df_overview_try (orders_env sparse_df) ''orders.xlsx'' ''Q2'' =
     (Inl (ValueError (''Worksheet named '' @ quoted ''Q2'' @ '' not found'')), [])"
    by (simp add: df_overview_try_def read_excel_sheet_def open_workbook_def orders_env_def)
  note t = df_overview_fails_soft [of "orders_env sparse_df" "''orders.xlsx''" "''Q2''"]
  from t h1 h2
  have "fst (df_overview (orders_env sparse_df) ''orders.xlsx'' ''Q2'') = Inr () \<and>
        snd (df_overview (orders_env sparse_df) ''orders.xlsx'' ''Q2'') =
          [Print (''Error processing sheet '' @ quoted ''Q2'' @ '': '' @
                  ''Worksheet named '' @ quoted ''Q2'' @ '' not found'')]"
    by blast
  then have c1: "df_overview (orders_env sparse_df) ''orders.xlsx'' ''Q2'' =
     (Inr (), [Print (''Error processing sheet '' @ quoted ''Q2'' @ '': '' @
                      ''Worksheet named '' @ quoted ''Q2'' @ '' not found'')])"
    by (simp add: prod_eq_iff)
  from t h3
  have c2: "length (filter is_diagnostic
              (snd (df_overview (orders_env sparse_df) ''orders.xlsx'' ''Q2''))) = 1"
    by blast
  from h1 h2 h3 c1 c2 show ?thesis by blast
qed

text \<open>
  Claim C9, as the code has it. The output comes in the fixed order metadata block,
  data-quality block, sample-values block, chart. The three blocks are all computed before
  the first line is printed: a failure of loading or of sampling leaves only the
  diagnostic line on the console, and none of the blocks computed before it. After a
  successful sampling the three blocks are printed in one go, the sample table is always
  assembled, and only the chart can still fail, which leaves the three blocks on the
  console, followed by the diagnostic line. Without a failure the output is the complete
  report.
\<close>

theorem df_overview_output_order:
  "(\<forall>e. read_excel_sheet (files ev) file_path sheet_name = Inl e \<longrightarrow>
      snd (df_overview ev file_path sheet_name) = [Print (error_line sheet_name e)]) \<and>
   (\<forall>df. read_excel_sheet (files ev) file_path sheet_name = Inr df \<longrightarrow>
      (\<forall>e. sample_loop (rng ev) (df_items df) [] = Inl e \<longrightarrow>
         snd (df_overview ev file_path sheet_name) = [Print (error_line sheet_name e)]) \<and>
      (\<forall>sv g. sample_loop (rng ev) (df_items df) [] = Inr (sv, g) \<longrightarrow>
         (\<forall>e. display ev (missing_fig sheet_name (data_quality df)) = Some e \<longrightarrow>
            snd (df_overview ev file_path sheet_name) =
              take 6 (report ev sheet_name df sv) @ [Print (error_line sheet_name e)]) \<and>
         (display ev (missing_fig sheet_name (data_quality df)) = None \<longrightarrow>
            snd (df_overview ev file_path sheet_name) = report ev sheet_name df sv)))"
proof -
  have a: "snd (df_overview ev file_path sheet_name) = [Print (error_line sheet_name e)]"
    if "read_excel_sheet (files ev) file_path sheet_name = Inl e" for e
    using that by (simp add: df_overview_def df_overview_try_def)
  have b: "snd (df_overview ev file_path sheet_name) = [Print (error_line sheet_name e)]"
    if "read_excel_sheet (files ev) file_path sheet_name = Inr df"
      and "sample_loop (rng ev) (df_items df) [] = Inl e" for df e
    using that by (simp add: df_overview_def df_overview_try_def Let_def)
  have c: "snd (df_overview ev file_path sheet_name) =
             take 6 (report ev sheet_name df sv) @ [Print (error_line sheet_name e)]"
    if r: "read_excel_sheet (files ev) file_path sheet_name = Inr df"
      and s: "sample_loop (rng ev) (df_items df) [] = Inr (sv, g)"
      and d: "display ev (missing_fig sheet_name (data_quality df)) = Some e" for df sv g e
    using r s d sample_loop_frame [OF s]
    by (simp add: df_overview_def df_overview_try_def Let_def report_def)
  have d: "snd (df_overview ev file_path sheet_name) = report ev sheet_name df sv"
    if r: "read_excel_sheet (files ev) file_path sheet_name = Inr df"
      and s: "sample_loop (rng ev) (df_items df) [] = Inr (sv, g)"
      and d: "display ev (missing_fig sheet_name (data_quality df)) = None" for df sv g
    using r s d sample_loop_frame [OF s]
    by (simp add: df_overview_def df_overview_try_def Let_def report_def)
  from a b c d show ?thesis by blast
qed

theorem df_overview_output_order_witness:
  "read_excel_sheet (files (orders_env repeats_df)) ''orders.xlsx'' ''Q1'' = Inr repeats_df \<and>
   sample_loop (rng (orders_env repeats_df)) (df_items repeats_df) [] =
     Inr ([(''item'', [VStr ''a'', VStr ''a'', VStr ''b'']),
           (''ok'', [VBool True, VNum 1, VBool True])], []) \<and>
   display (orders_env repeats_df) (missing_fig ''Q1'' (data_quality repeats_df)) = None \<and>
   snd (df_overview (orders_env repeats_df) ''orders.xlsx'' ''Q1'') =
     report (orders_env repeats_df) ''Q1'' repeats_df
       [(''item'', [VStr ''a'', VStr ''a'', VStr ''b'']),
        (''ok'', [VBool True, VNum 1, VBool True])] \<and>
   read_excel_sheet (files (no_renderer_env repeats_df)) ''orders.xlsx'' ''Q1'' = Inr repeats_df \<and>
   sample_loop (rng (no_renderer_env repeats_df)) (df_items repeats_df) [] =
     Inr ([(''item'', [VStr ''a'', VStr ''a'', VStr ''b'']),
           (''ok'', [VBool True, VNum 1, VBool True])], []) \<and>
   display (no_renderer_env repeats_df) (missing_fig ''Q1'' (data_quality repeats_df)) =
     Some (RenderError ''Mime type rendering requires nbformat>=4.2.0 but it is not installed'') \<and>
   snd (df_overview (no_renderer_env repeats_df) ''orders.xlsx'' ''Q1'') =
     take 6 (report (no_renderer_env repeats_df) ''Q1'' repeats_df
       [(''item'', [VStr ''a'', VStr ''a'', VStr ''b'']),
        (''ok'', [VBool True, VNum 1, VBool True])]) @
     [Print (error_line ''Q1''
        (RenderError ''Mime type rendering requires nbformat>=4.2.0 but it is not installed''))]"
proof -
  let ?sv = "[(''item'', [VStr ''a'', VStr ''a'', VStr ''b'']),
              (''ok'', [VBool True, VNum 1, VBool True])]"
  let ?e = "RenderError ''Mime type rendering requires nbformat>=4.2.0 but it is not installed''"
  have h1: "read_excel_sheet (files (orders_env repeats_df)) ''orders.xlsx'' ''Q1'' = Inr repeats_df"
    by (simp add: read_excel_sheet_def open_workbook_def orders_env_def)
  have h2: "sample_loop (rng (orders_env repeats_df)) (df_items repeats_df) [] = Inr (?sv, [])"
    by code_simp
  have h3: "display (orders_env repeats_df) (missing_fig ''Q1'' (data_quality repeats_df)) = None"
    by (simp add: orders_env_def)
  have k1: "read_excel_sheet (files (no_renderer_env repeats_df)) ''orders.xlsx'' ''Q1'' = Inr repeats_df"
    by (simp add: read_excel_sheet_def open_workbook_def no_renderer_env_def)
  have k2: "sample_loop (rng (no_renderer_env repeats_df)) (df_items repeats_df) [] = Inr (?sv, [])"
    by code_simp
  have k3: "display (no_renderer_env repeats_df) (missing_fig ''Q1'' (data_quality repeats_df)) = Some ?e"
    by (simp add: no_renderer_env_def)
  from df_overview_output_order [of "orders_env repeats_df" "''orders.xlsx''" "''Q1''"] h1 h2 h3
  have c1: "snd (df_overview (orders_env repeats_df) ''orders.xlsx'' ''Q1'') =
          report (orders_env repeats_df) ''Q1'' repeats_df ?sv"
    by blast
  from df_overview_output_order [of "no_renderer_env repeats_df" "''orders.xlsx''" "''Q1''"] k1 k2 k3
  have c2: "snd (df_overview (no_renderer_env repeats_df) ''orders.xlsx'' ''Q1'') =
          take 6 (report (no_renderer_env repeats_df) ''Q1'' repeats_df ?sv) @
          [Print (error_line ''Q1'' ?e)]"
    by blast
  from h1 h2 h3 c1 k1 k2 k3 c2 show ?thesis by blast
qed

text \<open>
  The interleaving the specification states fails on the sheet \<open>sparse_df\<close>: the
  metadata and the data-quality frame are computed, then sampling the text column raises,
  and the console shows the diagnostic line only; no block computed earlier is on it.
\<close>

theorem df_overview_interleaving_counterexample:
  "md_rows (metadata_of (orders_env sparse_df) ''Q1'' sparse_df) = 3 \<and>
   length (data_quality sparse_df) = 2 \<and>
   df_overview (orders_env sparse_df) ''orders.xlsx'' ''Q1'' =
     (Inr (), [Print (error_line ''Q1''
        (ValueError (''Cannot take a larger sample than population when '' @ quoted ''replace=False'')))])"
proof -
  have a: "md_rows (metadata_of (orders_env sparse_df) ''Q1'' sparse_df) = 3"
    by (simp add: metadata_of_def shape0_def sparse_df_def)
  have b: "length (data_quality sparse_df) = 2"
    by (simp add: data_quality_def length_df_items shape1_def sparse_df_def)
  have r: "read_excel_sheet (files (orders_env sparse_df)) ''orders.xlsx'' ''Q1'' = Inr sparse_df"
    by (simp add: read_excel_sheet_def open_workbook_def orders_env_def)
  have s: "sample_loop (rng (orders_env sparse_df)) (df_items sparse_df) [] =
      Inl (ValueError (''Cannot take a larger sample than population when '' @ quoted ''replace=False''))"
    by code_simp
  have c: "df_overview (orders_env sparse_df) ''orders.xlsx'' ''Q1'' =
     (Inr (), [Print (error_line ''Q1''
        (ValueError (''Cannot take a larger sample than population when '' @ quoted ''replace=False'')))])"
    by (simp add: df_overview_def df_overview_try_def r s Let_def)
  from a b c show ?thesis by (intro conjI)
qed

end
